theory Spec2Isabelle
  imports Complex_Main "HOL-Library.Char_ord" "HOL-Library.List_Lexorder" "HOL-Library.Sublist"
begin

section \<open>Data model\<close>

text \<open>
  A row of the table \<^verbatim>\<open>portfolio_holdings\<close> (the interface \<^verbatim>\<open>PortfolioHolding\<close> of
  \<^verbatim>\<open>lib/supabase.ts\<close>). The column \<^verbatim>\<open>id\<close> is called \<open>holding_id\<close> here, since \<open>id\<close> is
  the identity function of HOL. A field holds the value of the column: \<^verbatim>\<open>shares\<close> and
  \<^verbatim>\<open>year\<close> are \<^verbatim>\<open>integer\<close> columns, the two prices \<^verbatim>\<open>decimal\<close> columns, whose values are
  rationals. The client receives them as numbers of JSON and computes with the doubles
  nearest to them (\<open>number_of\<close> below). Timestamps are points on a time line.
\<close>

record PortfolioHolding =
  holding_id :: string
  user_id :: string
  stock_symbol :: string
  company_name :: string
  shares :: int
  purchase_price :: rat
  current_price :: rat
  quarter :: string
  year :: int
  created_at :: int
  updated_at :: int

text \<open>
  The \<^verbatim>\<open>CHECK\<close> constraints of \<^verbatim>\<open>CREATE TABLE portfolio_holdings\<close>: every stored row has
  \<^verbatim>\<open>shares > 0\<close>, \<^verbatim>\<open>purchase_price > 0\<close>, \<^verbatim>\<open>current_price > 0\<close> and \<^verbatim>\<open>year >= 2020\<close>.
\<close>

definition holding_ok :: "PortfolioHolding \<Rightarrow> bool" where
  "holding_ok h \<longleftrightarrow>
     shares h > 0 \<and> purchase_price h > 0 \<and> current_price h > 0 \<and> year h \<ge> 2020"

section \<open>The numbers of JavaScript\<close>

text \<open>
  A number of JavaScript is an IEEE 754 double: a finite value, which is a rational, or
  \<^verbatim>\<open>NaN\<close>, \<^verbatim>\<open>Infinity\<close> or \<^verbatim>\<open>-Infinity\<close>. The two zeros are not told apart: no comparison
  of the program does, and no division of the program has a zero divisor.
\<close>

datatype number = Num rat | NaN | Infinity | NegInfinity

text \<open>
  Rounding to the nearest double, ties to the even significand. \<open>bits n\<close> is the number
  of binary digits of \<open>n\<close> and \<open>exponent a\<close> the integer \<open>e\<close> with \<open>2 powi e \<le> a < 2 powi (e + 1)\<close>;
  a double has a significand of 53 binary digits, its last digit is worth at least
  \<open>2 powi - 1074\<close>, and a result of \<open>2 powi 1024\<close> or more is infinite.
\<close>

fun bits :: "nat \<Rightarrow> nat" where
  "bits n = (if n = 0 then 0 else Suc (bits (n div 2)))"

declare bits.simps [simp del]

definition exponent :: "rat \<Rightarrow> int" where
  "exponent a =
     (case quotient_of a of (n, d) \<Rightarrow>
        (let k = int (bits (nat n)) - int (bits (nat d))
         in if 2 powi k \<le> a then k else k - 1))"

definition round_half_even :: "rat \<Rightarrow> int" where
  "round_half_even m =
     (let f = \<lfloor>m\<rfloor>; frac = m - of_int f
      in if frac < 1 / 2 then f
         else if frac > 1 / 2 then f + 1
         else if even f then f else f + 1)"

definition round_double :: "rat \<Rightarrow> number" where
  "round_double x =
     (if x = 0 then Num 0
      else (let a = \<bar>x\<bar>;
                q = max (exponent a - 52) (- 1074);
                y = of_int (round_half_even (a / 2 powi q)) * 2 powi q
            in if y \<ge> 2 powi 1024 then (if x > 0 then Infinity else NegInfinity)
               else Num (if x > 0 then y else - y)))"

text \<open>
  The number the client reads from a field of a row: the response is JSON, and a number
  of JSON is read as the nearest double.
\<close>

definition number_of :: "rat \<Rightarrow> number" where
  "number_of x = round_double x"

text \<open>
  The operators \<^verbatim>\<open>+\<close>, \<^verbatim>\<open>-\<close>, \<^verbatim>\<open>*\<close>, \<^verbatim>\<open>/\<close> and \<^verbatim>\<open>>\<close> on numbers: the exact result of
  two finite operands is rounded, and the other operands follow IEEE 754.
\<close>

fun js_negate :: "number \<Rightarrow> number" where
  "js_negate (Num x) = Num (- x)"
| "js_negate NaN = NaN"
| "js_negate Infinity = NegInfinity"
| "js_negate NegInfinity = Infinity"

fun js_plus :: "number \<Rightarrow> number \<Rightarrow> number" where
  "js_plus (Num x) (Num y) = round_double (x + y)"
| "js_plus NaN b = NaN"
| "js_plus a NaN = NaN"
| "js_plus Infinity NegInfinity = NaN"
| "js_plus NegInfinity Infinity = NaN"
| "js_plus Infinity b = Infinity"
| "js_plus a Infinity = Infinity"
| "js_plus NegInfinity b = NegInfinity"
| "js_plus a NegInfinity = NegInfinity"

definition js_minus :: "number \<Rightarrow> number \<Rightarrow> number" where
  "js_minus a b = js_plus a (js_negate b)"

fun sign_of :: "number \<Rightarrow> int" where
  "sign_of (Num x) = (if x > 0 then 1 else if x < 0 then - 1 else 0)"
| "sign_of NaN = 0"
| "sign_of Infinity = 1"
| "sign_of NegInfinity = - 1"

definition js_times :: "number \<Rightarrow> number \<Rightarrow> number" where
  "js_times a b =
     (case (a, b) of
        (Num x, Num y) \<Rightarrow> round_double (x * y)
      | _ \<Rightarrow> if a = NaN \<or> b = NaN \<or> sign_of a * sign_of b = 0 then NaN
             else if sign_of a * sign_of b > 0 then Infinity else NegInfinity)"

definition js_divide :: "number \<Rightarrow> number \<Rightarrow> number" where
  "js_divide a b =
     (case (a, b) of
        (Num x, Num y) \<Rightarrow>
          if y \<noteq> 0 then round_double (x / y)
          else if x = 0 then NaN
          else if x > 0 then Infinity else NegInfinity
      | (Num x, NaN) \<Rightarrow> NaN
      | (Num x, _) \<Rightarrow> Num 0
      | (NaN, _) \<Rightarrow> NaN
      | (_, Num y) \<Rightarrow> if (sign_of a > 0) = (y \<ge> 0) then Infinity else NegInfinity
      | _ \<Rightarrow> NaN)"

definition js_greater :: "number \<Rightarrow> number \<Rightarrow> bool" where
  "js_greater a b =
     (case (a, b) of
        (Num x, Num y) \<Rightarrow> x > y
      | (Num x, NegInfinity) \<Rightarrow> True
      | (Infinity, Num y) \<Rightarrow> True
      | (Infinity, NegInfinity) \<Rightarrow> True
      | _ \<Rightarrow> False)"

text \<open>
  The element type of \<^verbatim>\<open>quarterlyPerformance\<close>, \<^verbatim>\<open>{ quarter: string; performance: number }\<close>.
  Its field \<^verbatim>\<open>quarter\<close> is called \<open>quarterLabel\<close>, to keep it apart from the column
  \<open>quarter\<close> of a holding.
\<close>

record QuarterPerformance =
  quarterLabel :: string
  performance :: number

record PortfolioSummary =
  totalValue :: number
  totalGainLoss :: number
  totalGainLossPercent :: number
  totalShares :: number
  quarterlyPerformance :: "QuarterPerformance list"

section \<open>The remote table and its queries\<close>

datatype error = Error string

text \<open>
  A query as the query builder assembles it: the selected columns, the \<^verbatim>\<open>.eq\<close> filters
  in the order they were added, and whether \<^verbatim>\<open>.order('created_at', { ascending: false })\<close>
  was asked for. The table is always \<^verbatim>\<open>portfolio_holdings\<close>.
\<close>

datatype eq_filter = Eq_user_id string | Eq_quarter string | Eq_year int

record query =
  columns :: string
  filters :: "eq_filter list"
  order_created_at_desc :: bool

text \<open>The object \<^verbatim>\<open>{ data, error }\<close> an awaited query resolves to.\<close>

record response =
  data :: "PortfolioHolding list option"
  error :: "error option"

text \<open>
  The remote service: what an awaited query gives. \<open>Inl e\<close> is a promise that rejects
  with \<open>e\<close>, \<open>Inr resp\<close> one that resolves to the object \<open>resp\<close>.
\<close>

type_synonym remote = "query \<Rightarrow> error + response"

text \<open>
  \<^verbatim>\<open>const { data, error } = await query; if (error) { throw error; }\<close>: the rows (possibly
  \<^verbatim>\<open>null\<close>), or the error that is thrown.
\<close>

definition await_query :: "remote \<Rightarrow> query \<Rightarrow> error + PortfolioHolding list option" where
  "await_query r q =
     (case r q of
        Inl e \<Rightarrow> Inl e
      | Inr resp \<Rightarrow> (case error resp of Some e \<Rightarrow> Inl e | None \<Rightarrow> Inr (data resp)))"

text \<open>
  What the hosted database answers: the rows that satisfy every filter of the query
  (the filters of a request are joined by \<^verbatim>\<open>AND\<close>), by descending \<^verbatim>\<open>created_at\<close> when the
  query orders them.
\<close>

fun matches :: "eq_filter \<Rightarrow> PortfolioHolding \<Rightarrow> bool" where
  "matches (Eq_user_id u) h = (user_id h = u)"
| "matches (Eq_quarter q) h = (quarter h = q)"
| "matches (Eq_year y) h = (year h = y)"

definition run_query :: "PortfolioHolding list \<Rightarrow> query \<Rightarrow> PortfolioHolding list" where
  "run_query tbl q =
     (let rows = filter (\<lambda>h. list_all (\<lambda>f. matches f h) (filters q)) tbl
      in if order_created_at_desc q then sort_key (\<lambda>h. - created_at h) rows else rows)"

definition table_remote :: "PortfolioHolding list \<Rightarrow> remote" where
  "table_remote tbl q = Inr \<lparr>data = Some (run_query tbl q), error = None\<rparr>"

section \<open>The portfolio service\<close>

text \<open>
  The state the service can touch: its private \<^verbatim>\<open>cache\<close>, a \<^verbatim>\<open>Map\<close> from a key to
  \<^verbatim>\<open>{ data, timestamp }\<close> kept in insertion order, and the console, to which
  \<^verbatim>\<open>console.error\<close> appends a message and the error it reports.
\<close>

record cache_entry =
  cached :: string
  timestamp :: int

record state =
  cache :: "(string \<times> cache_entry) list"
  console :: "(string \<times> error) list"

definition CACHE_DURATION :: int where
  "CACHE_DURATION = 5 * 60 * 1000"

definition console_error :: "string \<Rightarrow> error \<Rightarrow> state \<Rightarrow> state" where
  "console_error msg e s = s\<lparr>console := console s @ [(msg, e)]\<rparr>"

text \<open>
  \<^verbatim>\<open>getUserPortfolio(userId, quarter?, year?)\<close>. An optional argument is \<open>None\<close> when it
  is \<^verbatim>\<open>undefined\<close> (for \<^verbatim>\<open>year\<close> also when it is \<^verbatim>\<open>NaN\<close>); \<^verbatim>\<open>if (quarter)\<close> and
  \<^verbatim>\<open>if (year)\<close> test truthiness, so the empty string and the number 0 add no filter.
\<close>

definition portfolio_query :: "string \<Rightarrow> string option \<Rightarrow> int option \<Rightarrow> query" where
  "portfolio_query userId quarter' year' =
     (let query = \<lparr>columns = ''*'', filters = [Eq_user_id userId], order_created_at_desc = True\<rparr>;
          query = (case quarter' of
                     Some q \<Rightarrow> if q \<noteq> [] then query\<lparr>filters := filters query @ [Eq_quarter q]\<rparr>
                               else query
                   | None \<Rightarrow> query);
          query = (case year' of
                     Some y \<Rightarrow> if y \<noteq> 0 then query\<lparr>filters := filters query @ [Eq_year y]\<rparr>
                               else query
                   | None \<Rightarrow> query)
      in query)"

definition getUserPortfolio ::
  "remote \<Rightarrow> state \<Rightarrow> string \<Rightarrow> string option \<Rightarrow> int option
     \<Rightarrow> (error + PortfolioHolding list) \<times> state" where
  "getUserPortfolio r s userId quarter' year' =
     (case await_query r (portfolio_query userId quarter' year') of
        Inl e \<Rightarrow> (Inl e, console_error ''Error fetching portfolio:'' e s)
      | Inr d \<Rightarrow> (Inr (case d of Some rows \<Rightarrow> rows | None \<Rightarrow> []), s))"

text \<open>
  The template literal \<^verbatim>\<open>`${holding.quarter} ${holding.year}`\<close>: the year, an integer, is
  written in decimal.
\<close>

fun string_of_nat :: "nat \<Rightarrow> string" where
  "string_of_nat n =
     (if n < 10 then [''0123456789'' ! n]
      else string_of_nat (n div 10) @ [''0123456789'' ! (n mod 10)])"

declare string_of_nat.simps [simp del]

definition string_of_int :: "int \<Rightarrow> string" where
  "string_of_int i =
     (if i < 0 then CHR ''-'' # string_of_nat (nat (- i)) else string_of_nat (nat i))"

definition quarterKey :: "PortfolioHolding \<Rightarrow> string" where
  "quarterKey holding = quarter holding @ '' '' @ string_of_int (year holding)"

text \<open>
  \<^verbatim>\<open>Array.prototype.sort(compareFn)\<close>: a stable sort that puts \<open>a\<close> before \<open>b\<close> when
  \<open>compareFn a b \<le> 0\<close>.
\<close>

fun insert_by :: "('a \<Rightarrow> 'a \<Rightarrow> int) \<Rightarrow> 'a \<Rightarrow> 'a list \<Rightarrow> 'a list" where
  "insert_by compareFn x [] = [x]"
| "insert_by compareFn x (y # ys) =
     (if compareFn x y \<le> 0 then x # y # ys else y # insert_by compareFn x ys)"

definition sort_by :: "('a \<Rightarrow> 'a \<Rightarrow> int) \<Rightarrow> 'a list \<Rightarrow> 'a list" where
  "sort_by compareFn xs = foldr (insert_by compareFn) xs []"

text \<open>
  The \<^verbatim>\<open>Map\<close> of \<^verbatim>\<open>getQuarterlyPerformance\<close>, in insertion order: \<^verbatim>\<open>set\<close> overwrites the value
  of a key that is there and appends a key that is not.
\<close>

fun map_set :: "('k \<times> 'v) list \<Rightarrow> 'k \<Rightarrow> 'v \<Rightarrow> ('k \<times> 'v) list" where
  "map_set [] k v = [(k, v)]"
| "map_set ((k', v') # m) k v =
     (if k' = k then (k', v) # m else (k', v') # map_set m k v)"

text \<open>
  The products \<^verbatim>\<open>holding.shares * holding.current_price\<close> and
  \<^verbatim>\<open>holding.shares * holding.purchase_price\<close> that both loops compute.
\<close>

definition currentValue :: "PortfolioHolding \<Rightarrow> number" where
  "currentValue holding =
     js_times (number_of (of_int (shares holding))) (number_of (current_price holding))"

definition costBasis :: "PortfolioHolding \<Rightarrow> number" where
  "costBasis holding =
     js_times (number_of (of_int (shares holding))) (number_of (purchase_price holding))"

text \<open>The callback of \<^verbatim>\<open>data?.forEach\<close>; a value of the map is \<open>(totalValue, totalCost)\<close>.\<close>

definition addToQuarter ::
  "(string \<times> number \<times> number) list \<Rightarrow> PortfolioHolding
     \<Rightarrow> (string \<times> number \<times> number) list" where
  "addToQuarter quarterMap holding =
     (let existing = (case map_of quarterMap (quarterKey holding) of
                        Some e \<Rightarrow> e | None \<Rightarrow> (Num 0, Num 0))
      in map_set quarterMap (quarterKey holding)
           (js_plus (fst existing) (currentValue holding),
            js_plus (snd existing) (costBasis holding)))"

definition quarterEntry :: "string \<times> number \<times> number \<Rightarrow> QuarterPerformance" where
  "quarterEntry e =
     (case e of (q, v, c) \<Rightarrow>
        \<lparr>quarterLabel = q,
         performance =
           (if js_greater c (Num 0) then js_times (js_divide (js_minus v c) c) (Num 100)
            else Num 0)\<rparr>)"

definition quarterly_query :: "string \<Rightarrow> query" where
  "quarterly_query userId =
     \<lparr>columns = ''quarter, year, shares, purchase_price, current_price'',
      filters = [Eq_user_id userId], order_created_at_desc = False\<rparr>"

text \<open>
  \<^verbatim>\<open>getQuarterlyPerformance\<close>. \<^verbatim>\<open>String.prototype.localeCompare\<close> is the collation of the
  runtime and of its locale; it is the first argument of the function.
\<close>

definition getQuarterlyPerformance ::
  "(string \<Rightarrow> string \<Rightarrow> int) \<Rightarrow> remote \<Rightarrow> state \<Rightarrow> string
     \<Rightarrow> (error + QuarterPerformance list) \<times> state" where
  "getQuarterlyPerformance localeCompare r s userId =
     (case await_query r (quarterly_query userId) of
        Inl e \<Rightarrow> (Inr [], console_error ''Error fetching quarterly performance:'' e s)
      | Inr d \<Rightarrow>
          (let quarterMap = foldl addToQuarter [] (case d of Some rows \<Rightarrow> rows | None \<Rightarrow> [])
           in (Inr (sort_by (\<lambda>a b. localeCompare (quarterLabel b) (quarterLabel a))
                      (map quarterEntry quarterMap)), s)))"

text \<open>
  \<^verbatim>\<open>getPortfolioSummary\<close>: the callback of \<^verbatim>\<open>holdings.forEach\<close> on the three accumulators
  \<open>(totalValue, totalCost, totalShares)\<close>, then the function. The local variables carry
  a prime, to keep them apart from the fields of the summary.
\<close>

definition addHolding ::
  "number \<times> number \<times> number \<Rightarrow> PortfolioHolding \<Rightarrow> number \<times> number \<times> number" where
  "addHolding acc holding =
     (case acc of (totalValue', totalCost', totalShares') \<Rightarrow>
        (js_plus totalValue' (currentValue holding),
         js_plus totalCost' (costBasis holding),
         js_plus totalShares' (number_of (of_int (shares holding)))))"

definition getPortfolioSummary ::
  "(string \<Rightarrow> string \<Rightarrow> int) \<Rightarrow> remote \<Rightarrow> state \<Rightarrow> string
     \<Rightarrow> (error + PortfolioSummary) \<times> state" where
  "getPortfolioSummary localeCompare r s userId =
     (case getUserPortfolio r s userId None None of
        (Inl e, s1) \<Rightarrow> (Inl e, console_error ''Error calculating portfolio summary:'' e s1)
      | (Inr holdings, s1) \<Rightarrow>
          (case foldl addHolding (Num 0, Num 0, Num 0) holdings of
             (totalValue', totalCost', totalShares') \<Rightarrow>
             (let totalGainLoss' = js_minus totalValue' totalCost';
                  totalGainLossPercent' =
                    (if js_greater totalCost' (Num 0)
                     then js_times (js_divide totalGainLoss' totalCost') (Num 100)
                     else Num 0)
              in (case getQuarterlyPerformance localeCompare r s1 userId of
                    (Inl e, s2) \<Rightarrow>
                      (Inl e, console_error ''Error calculating portfolio summary:'' e s2)
                  | (Inr quarterlyData, s2) \<Rightarrow>
                      (Inr \<lparr>totalValue = totalValue', totalGainLoss = totalGainLoss',
                            totalGainLossPercent = totalGainLossPercent',
                            totalShares = totalShares',
                            quarterlyPerformance = quarterlyData\<rparr>, s2)))))"

text \<open>
  \<^verbatim>\<open>getAvailableQuarters\<close>. \<^verbatim>\<open>new Set(...)\<close> keeps the first occurrence of every element,
  in insertion order; \<^verbatim>\<open>sort()\<close> compares the strings by their code units.
\<close>

definition set_add :: "'a list \<Rightarrow> 'a \<Rightarrow> 'a list" where
  "set_add s x = (if x \<in> set s then s else s @ [x])"

definition new_Set :: "'a list \<Rightarrow> 'a list" where
  "new_Set xs = foldl set_add [] xs"

definition compare_code_units :: "string \<Rightarrow> string \<Rightarrow> int" where
  "compare_code_units a b = (if a < b then - 1 else if b < a then 1 else 0)"

definition quarters_query :: "string \<Rightarrow> query" where
  "quarters_query userId =
     \<lparr>columns = ''quarter, year'', filters = [Eq_user_id userId],
      order_created_at_desc = False\<rparr>"

definition getAvailableQuarters ::
  "remote \<Rightarrow> state \<Rightarrow> string \<Rightarrow> (error + string list) \<times> state" where
  "getAvailableQuarters r s userId =
     (case await_query r (quarters_query userId) of
        Inl e \<Rightarrow> (Inr [], console_error ''Error fetching quarters:'' e s)
      | Inr d \<Rightarrow>
          (let quarters = new_Set (case d of Some rows \<Rightarrow> map quarterKey rows | None \<Rightarrow> [])
           in (Inr (rev (sort_by compare_code_units quarters)), s)))"

text \<open>\<^verbatim>\<open>clearCache\<close>: \<^verbatim>\<open>this.cache.clear()\<close>.\<close>

definition clearCache :: "state \<Rightarrow> unit \<times> state" where
  "clearCache s = ((), s\<lparr>cache := []\<rparr>)"

text \<open>
  \<^verbatim>\<open>subscribeToPortfolioUpdates\<close>: the channel that is opened and what it listens to; the
  callback is registered with the channel and is not called here.
\<close>

record subscription =
  channel :: string
  event :: string
  schema :: string
  table :: string
  filter_expr :: string

definition subscribeToPortfolioUpdates :: "state \<Rightarrow> string \<Rightarrow> subscription \<times> state" where
  "subscribeToPortfolioUpdates s userId =
     (\<lparr>channel = ''portfolio_'' @ userId, event = ''*'', schema = ''public'',
       table = ''portfolio_holdings'', filter_expr = ''user_id=eq.'' @ userId\<rparr>, s)"

section \<open>The aggregation on the side of the database\<close>

text \<open>
  The function \<^verbatim>\<open>get_portfolio_summary(target_user_id)\<close> of the migration. A value of SQL
  is \<open>None\<close> when it is \<^verbatim>\<open>NULL\<close>. \<^verbatim>\<open>SUM\<close> over no row is \<^verbatim>\<open>NULL\<close>; the columns that are
  summed are \<^verbatim>\<open>NOT NULL\<close>. A comparison with \<^verbatim>\<open>NULL\<close> is \<^verbatim>\<open>NULL\<close>, and \<^verbatim>\<open>CASE WHEN\<close> takes
  a branch only when its condition is true. A division by zero raises an error. The
  aggregate \<^verbatim>\<open>SUM\<close> is called \<open>sql_SUM\<close>.
\<close>

datatype sql_error = Division_by_zero

definition sql_SUM :: "('a \<Rightarrow> 'b::comm_monoid_add) \<Rightarrow> 'a list \<Rightarrow> 'b option" where
  "sql_SUM f rows = (if rows = [] then None else Some (sum_list (map f rows)))"

definition sql_minus :: "rat option \<Rightarrow> rat option \<Rightarrow> rat option" where
  "sql_minus a b = (case (a, b) of (Some x, Some y) \<Rightarrow> Some (x - y) | _ \<Rightarrow> None)"

definition sql_times :: "rat option \<Rightarrow> rat option \<Rightarrow> rat option" where
  "sql_times a b = (case (a, b) of (Some x, Some y) \<Rightarrow> Some (x * y) | _ \<Rightarrow> None)"

definition sql_greater :: "rat option \<Rightarrow> rat option \<Rightarrow> bool option" where
  "sql_greater a b = (case (a, b) of (Some x, Some y) \<Rightarrow> Some (x > y) | _ \<Rightarrow> None)"

definition sql_divide :: "rat option \<Rightarrow> rat option \<Rightarrow> sql_error + rat option" where
  "sql_divide a b =
     (case (a, b) of
        (Some x, Some y) \<Rightarrow> if y = 0 then Inl Division_by_zero else Inr (Some (x / y))
      | _ \<Rightarrow> Inr None)"

record summary_row =
  total_value :: "rat option"
  total_cost :: "rat option"
  total_gain_loss :: "rat option"
  total_gain_loss_percent :: "rat option"
  total_shares :: "int option"

definition get_portfolio_summary :: "PortfolioHolding list \<Rightarrow> string \<Rightarrow> sql_error + summary_row" where
  "get_portfolio_summary portfolio_holdings target_user_id =
     (let rows = filter (\<lambda>h. user_id h = target_user_id) portfolio_holdings;
          sum_value = sql_SUM (\<lambda>h. of_int (shares h) * current_price h) rows;
          sum_cost = sql_SUM (\<lambda>h. of_int (shares h) * purchase_price h) rows
      in case (if sql_greater sum_cost (Some 0) = Some True
               then (case sql_divide (sql_minus sum_value sum_cost) sum_cost of
                       Inl e \<Rightarrow> Inl e
                     | Inr q \<Rightarrow> Inr (sql_times q (Some 100)))
               else Inr (Some 0)) of
           Inl e \<Rightarrow> Inl e
         | Inr percent \<Rightarrow>
             Inr \<lparr>total_value = sum_value, total_cost = sum_cost,
                  total_gain_loss = sql_minus sum_value sum_cost,
                  total_gain_loss_percent = percent,
                  total_shares = sql_SUM shares rows\<rparr>)"

section \<open>The dashboard\<close>

text \<open>
  \<^verbatim>\<open>String.prototype.split(' ')\<close> and \<^verbatim>\<open>parseInt\<close> without a radix: leading white space
  is skipped, a sign is read, a prefix \<^verbatim>\<open>0x\<close> selects radix 16, the longest prefix of
  digits is the value, and there is no value (\<^verbatim>\<open>NaN\<close>, here \<open>None\<close>) without a digit.
\<close>

fun split :: "char \<Rightarrow> string \<Rightarrow> string list" where
  "split sep [] = [[]]"
| "split sep (c # cs) =
     (if c = sep then [] # split sep cs
      else (case split sep cs of [] \<Rightarrow> [[c]] | p # ps \<Rightarrow> (c # p) # ps))"





text \<open>
  The state of the component \<^verbatim>\<open>PortfolioDashboard\<close>; the state variable \<^verbatim>\<open>error\<close> is the
  field \<open>errorMessage\<close>. A \<^verbatim>\<open>set...\<close> call of React takes effect in the state that the
  handler leaves; what the handler reads is the state it was started in.
\<close>

record dashboard =
  holdings :: "PortfolioHolding list"
  summary :: "PortfolioSummary option"
  loading :: bool
  errorMessage :: "string option"
  selectedQuarter :: string
  availableQuarters :: "string list"
  isRefreshing :: bool






section \<open>Rows for examples\<close>

definition row ::
  "string \<Rightarrow> int \<Rightarrow> rat \<Rightarrow> rat \<Rightarrow> string \<Rightarrow> int \<Rightarrow> int \<Rightarrow> PortfolioHolding" where
  "row u n p c q y t =
     \<lparr>holding_id = [], user_id = u, stock_symbol = [], company_name = [], shares = n,
      purchase_price = p, current_price = c, quarter = q, year = y, created_at = t,
      updated_at = t\<rparr>"

text \<open>
  The two holdings of the worked example of the specification, a state with an empty
  cache and an empty console, and a remote service whose every answer carries an error.
\<close>

definition example_holdings :: "PortfolioHolding list" where
  "example_holdings = [row ''u'' 10 90 100 ''Q1'' 2024 2, row ''u'' 5 40 50 ''Q2'' 2024 1]"

definition initial_state :: state where
  "initial_state = \<lparr>cache = [], console = []\<rparr>"

definition failing_remote :: "error \<Rightarrow> remote" where
  "failing_remote e q = Inr \<lparr>data = None, error = Some e\<rparr>"


text \<open>
  Two holdings whose prices are not doubles, holdings of three quarters, two of them of
  one year, holdings whose quarter is not one word, and holdings whose quarters differ in
  case.
\<close>

definition rounding_holdings :: "PortfolioHolding list" where
  "rounding_holdings =
     [row ''u'' 1 (15 / 100) (10 / 100) ''Q1'' 2024 2,
      row ''u'' 1 (15 / 100) (20 / 100) ''Q1'' 2024 1]"



definition mixed_case_holdings :: "PortfolioHolding list" where
  "mixed_case_holdings =
     [row ''u'' 10 90 100 ''q1'' 2024 2, row ''u'' 5 40 50 ''Q2'' 2024 1]"

text \<open>
  A collation that, as the default collation of the runtime does, compares letters
  without regard to their case first and puts the small letter first where only the case
  differs.
\<close>

definition upper :: "char \<Rightarrow> char" where
  "upper c =
     (case map_of (zip ''abcdefghijklmnopqrstuvwxyz'' ''ABCDEFGHIJKLMNOPQRSTUVWXYZ'') c of
        Some u \<Rightarrow> u | None \<Rightarrow> c)"

definition collate_caseless :: "string \<Rightarrow> string \<Rightarrow> int" where
  "collate_caseless a b =
     (if map upper a < map upper b then - 1
      else if map upper b < map upper a then 1
      else if b < a then - 1 else if a < b then 1 else 0)"

section \<open>The totals as the specification words them\<close>

text \<open>
  Total value is the sum of shares times current price, total cost the sum of shares
  times purchase price, total shares the sum of the shares.
\<close>

definition spec_total_value :: "PortfolioHolding list \<Rightarrow> rat" where
  "spec_total_value hs = (\<Sum>h\<leftarrow>hs. of_int (shares h) * current_price h)"

definition spec_total_cost :: "PortfolioHolding list \<Rightarrow> rat" where
  "spec_total_cost hs = (\<Sum>h\<leftarrow>hs. of_int (shares h) * purchase_price h)"

definition spec_total_shares :: "PortfolioHolding list \<Rightarrow> int" where
  "spec_total_shares hs = (\<Sum>h\<leftarrow>hs. shares h)"

text \<open>
  The same in the arithmetic of doubles: a sum is taken from left to right, every partial
  sum rounded; the gain/loss percent of a total value and a total cost is the gain/loss
  divided by the total cost, times 100, and 0 unless the total cost is greater than 0.
  A rational is a double when rounding leaves it as it is.
\<close>

definition double_sum :: "number list \<Rightarrow> number" where
  "double_sum xs = foldl js_plus (Num 0) xs"

definition double_total_value :: "PortfolioHolding list \<Rightarrow> number" where
  "double_total_value hs =
     double_sum (map (\<lambda>h. js_times (number_of (of_int (shares h))) (number_of (current_price h))) hs)"

definition double_total_cost :: "PortfolioHolding list \<Rightarrow> number" where
  "double_total_cost hs =
     double_sum (map (\<lambda>h. js_times (number_of (of_int (shares h))) (number_of (purchase_price h))) hs)"

definition double_total_shares :: "PortfolioHolding list \<Rightarrow> number" where
  "double_total_shares hs = double_sum (map (\<lambda>h. number_of (of_int (shares h))) hs)"

definition gain_loss_percent :: "number \<Rightarrow> number \<Rightarrow> number" where
  "gain_loss_percent v c =
     (if js_greater c (Num 0) then js_times (js_divide (js_minus v c) c) (Num 100)
      else Num 0)"

definition is_double :: "rat \<Rightarrow> bool" where
  "is_double x \<longleftrightarrow> round_double x = Num x"

text \<open>
  No step of the two loops rounds on the rows \<open>hs\<close>: the shares, the prices and the
  products of every row are doubles, and so are the sums of every initial part of the rows
  and the gain/loss.
\<close>

definition no_rounding :: "PortfolioHolding list \<Rightarrow> bool" where
  "no_rounding hs \<longleftrightarrow>
     list_all (\<lambda>h. is_double (of_int (shares h)) \<and> is_double (current_price h)
                 \<and> is_double (purchase_price h)
                 \<and> is_double (of_int (shares h) * current_price h)
                 \<and> is_double (of_int (shares h) * purchase_price h)) hs
     \<and> list_all (\<lambda>p. is_double (spec_total_value p) \<and> is_double (spec_total_cost p)
                   \<and> is_double (of_int (spec_total_shares p))) (prefixes hs)
     \<and> is_double (spec_total_value hs - spec_total_cost hs)"

text \<open>The rows of a group: those of \<open>hs\<close> whose composite key is \<open>k\<close>, in their order.\<close>

definition quarterRows :: "string \<Rightarrow> PortfolioHolding list \<Rightarrow> PortfolioHolding list" where
  "quarterRows k hs = filter (\<lambda>h. quarterKey h = k) hs"

section \<open>Rounding to a double\<close>

lemma bits_bounds: "n > 0 \<Longrightarrow> 2 ^ (bits n - 1) \<le> n \<and> n < 2 ^ bits n"
proof (induction n rule: bits.induct)
  case (1 n)
  show ?case
  proof (cases "n div 2 = 0")
    case True
    with "1.prems" have "n = 1" by presburger
    then show ?thesis by (simp add: bits.simps)
  next
    case False
    then have pos: "n div 2 > 0" by simp
    from "1.IH" [OF _ pos] "1.prems"
    have ih: "2 ^ (bits (n div 2) - 1) \<le> n div 2" "n div 2 < 2 ^ bits (n div 2)"
      by simp_all
    have b: "bits n = Suc (bits (n div 2))"
      using "1.prems" by (subst bits.simps) simp
    have bp: "bits (n div 2) > 0"
      using pos by (subst bits.simps) simp
    then have e: "bits n - 1 = Suc (bits (n div 2) - 1)"
      using b by simp
    have "2 ^ (bits n - 1) = 2 * 2 ^ (bits (n div 2) - 1)"
      unfolding e by simp
    also have "\<dots> \<le> 2 * (n div 2)"
      using ih(1) by simp
    also have "\<dots> \<le> n" by simp
    finally have lo: "2 ^ (bits n - 1) \<le> n" .
    have "n < 2 * (n div 2) + 2" by presburger
    also have "\<dots> \<le> 2 * 2 ^ bits (n div 2)"
      using ih(2) by simp
    finally have "n < 2 ^ bits n"
      unfolding b by simp
    with lo show ?thesis by simp
  qed
qed

lemma powi_nat: "k \<ge> 0 \<Longrightarrow> (2::rat) powi k = 2 ^ nat k"
  by (simp add: power_int_def)

lemma quotient_bounds:
  fixes N D :: nat
  assumes "N > 0" and "D > 0"
  shows "2 powi (int (bits N) - int (bits D) - 1) \<le> (of_nat N / of_nat D :: rat)"
    and "(of_nat N / of_nat D :: rat) < 2 powi (int (bits N) - int (bits D) + 1)"
proof -
  from bits_bounds [OF assms(1)] have n: "2 ^ (bits N - 1) \<le> N" "N < 2 ^ bits N"
    by simp_all
  from bits_bounds [OF assms(2)] have d: "2 ^ (bits D - 1) \<le> D" "D < 2 ^ bits D"
    by simp_all
  have bn: "bits N > 0" using assms(1) by (subst bits.simps) simp
  have bd: "bits D > 0" using assms(2) by (subst bits.simps) simp
  have n1: "(2::rat) ^ (bits N - 1) \<le> of_nat N"
    using n(1) by (metis of_nat_le_iff of_nat_numeral of_nat_power)
  have n2: "(of_nat N :: rat) < 2 ^ bits N"
    using n(2) by (metis of_nat_less_iff of_nat_numeral of_nat_power)
  have d1: "(2::rat) ^ (bits D - 1) \<le> of_nat D"
    using d(1) by (metis of_nat_le_iff of_nat_numeral of_nat_power)
  have d2: "(of_nat D :: rat) < 2 ^ bits D"
    using d(2) by (metis of_nat_less_iff of_nat_numeral of_nat_power)
  have Dpos: "(of_nat D :: rat) > 0" using assms(2) by simp
  have e1: "(2::rat) powi (int (bits N) - int (bits D) - 1) = 2 ^ (bits N - 1) / 2 ^ bits D"
  proof -
    have i: "int (bits N) - int (bits D) - 1 = int (bits N - 1) - int (bits D)"
      using bn by simp
    have "(2::rat) powi (int (bits N - 1) - int (bits D))
            = 2 powi int (bits N - 1) / 2 powi int (bits D)"
      by (rule power_int_diff) simp
    then show ?thesis
      unfolding i power_int_of_nat .
  qed
  have e2: "(2::rat) powi (int (bits N) - int (bits D) + 1) = 2 ^ bits N / 2 ^ (bits D - 1)"
  proof -
    have i: "int (bits N) - int (bits D) + 1 = int (bits N) - int (bits D - 1)"
      using bd by simp
    have "(2::rat) powi (int (bits N) - int (bits D - 1))
            = 2 powi int (bits N) / 2 powi int (bits D - 1)"
      by (rule power_int_diff) simp
    then show ?thesis
      unfolding i power_int_of_nat .
  qed
  have "(2::rat) ^ (bits N - 1) / 2 ^ bits D \<le> of_nat N / 2 ^ bits D"
    using n1 by (simp add: divide_right_mono)
  also have "\<dots> \<le> of_nat N / of_nat D"
    using d2 Dpos by (simp add: frac_le)
  finally show "2 powi (int (bits N) - int (bits D) - 1) \<le> (of_nat N / of_nat D :: rat)"
    unfolding e1 .
  have "(of_nat N / of_nat D :: rat) < 2 ^ bits N / of_nat D"
    using n2 Dpos by (simp add: divide_strict_right_mono)
  also have "\<dots> \<le> 2 ^ bits N / 2 ^ (bits D - 1)"
    using d1 by (simp add: frac_le)
  finally show "(of_nat N / of_nat D :: rat) < 2 powi (int (bits N) - int (bits D) + 1)"
    unfolding e2 .
qed

lemma exponent_bounds:
  assumes "a > 0"
  shows "2 powi exponent a \<le> a \<and> a < 2 powi (exponent a + 1)"
proof -
  obtain n d where q: "quotient_of a = (n, d)"
    by (cases "quotient_of a")
  then have d: "d > 0" and a: "a = of_int n / of_int d"
    by (simp_all add: quotient_of_denom_pos quotient_of_div)
  with assms have n: "n > 0"
    by (simp add: zero_less_divide_iff)
  have a': "a = of_nat (nat n) / of_nat (nat d)"
    using a n d by simp
  let ?k = "int (bits (nat n)) - int (bits (nat d))"
  from quotient_bounds [of "nat n" "nat d"] n d
  have lo: "2 powi (?k - 1) \<le> a" and hi: "a < 2 powi (?k + 1)"
    unfolding a' by simp_all
  show ?thesis
  proof (cases "2 powi ?k \<le> a")
    case True
    then have "exponent a = ?k"
      by (simp add: exponent_def q)
    with True hi show ?thesis by simp
  next
    case False
    then have "exponent a = ?k - 1"
      by (simp add: exponent_def q)
    with False lo show ?thesis by simp
  qed
qed

lemma exponent_eqI:
  assumes "a > 0" and "2 powi e \<le> a" and "a < 2 powi (e + 1)"
  shows "exponent a = e"
proof -
  from exponent_bounds [OF assms(1)]
  have b: "2 powi exponent a \<le> a" "a < 2 powi (exponent a + 1)"
    by simp_all
  have 1: "e < exponent a + 1"
  proof (rule ccontr)
    assume "\<not> e < exponent a + 1"
    then have "(2::rat) powi (exponent a + 1) \<le> 2 powi e"
      by (intro power_int_increasing) simp_all
    with assms(2) b(2) show False by simp
  qed
  have 2: "exponent a < e + 1"
  proof (rule ccontr)
    assume "\<not> exponent a < e + 1"
    then have "(2::rat) powi (e + 1) \<le> 2 powi exponent a"
      by (intro power_int_increasing) simp_all
    with assms(3) b(1) show False by simp
  qed
  from 1 2 show ?thesis by simp
qed

lemma round_double_pos:
  assumes "a > 0" and "2 powi e \<le> a" and "a < 2 powi (e + 1)"
  shows "round_double a =
     (let q = max (e - 52) (- 1074);
          y = of_int (round_half_even (a / 2 powi q)) * 2 powi q
      in if y \<ge> 2 powi 1024 then Infinity else Num y)"
  using assms(1) by (simp add: round_double_def exponent_eqI [OF assms] Let_def)

lemma floor_quotient_numeral:
  "\<lfloor>numeral a / numeral b :: rat\<rfloor> = numeral a div numeral b"
  using floor_divide_of_int_eq [of "numeral a" "numeral b", where ?'a = rat] by simp


lemma round_half_even_of_int: "round_half_even (of_int m) = m"
  by (simp add: round_half_even_def)

lemma round_double_neg:
  "round_double (- x) = js_negate (round_double x)"
  by (simp add: round_double_def Let_def)

lemma is_double_of_nat:
  assumes "n < 2 ^ 53"
  shows "is_double (of_nat n)"
proof (cases "n = 0")
  case True
  then show ?thesis by (simp add: is_double_def round_double_def)
next
  case False
  let ?a = "of_nat n :: rat"
  let ?e = "exponent ?a"
  have pos: "?a > 0" using False by simp
  from exponent_bounds [OF pos] have lo: "2 powi ?e \<le> ?a" and hi: "?a < 2 powi (?e + 1)"
    by simp_all
  have ge1: "?a \<ge> 1" using False by simp
  have e0: "?e \<ge> 0"
  proof (rule ccontr)
    assume "\<not> ?e \<ge> 0"
    then have "(2::rat) powi (?e + 1) \<le> 2 powi 0"
      by (intro power_int_increasing) simp_all
    with hi ge1 show False by simp
  qed
  have lt: "?a < 2 ^ 53"
    using assms by (metis of_nat_less_iff of_nat_numeral of_nat_power)
  have e52: "?e \<le> 52"
  proof (rule ccontr)
    assume "\<not> ?e \<le> 52"
    then have "(2::rat) powi 53 \<le> 2 powi ?e"
      by (intro power_int_increasing) simp_all
    with lo lt show False by simp
  qed
  let ?k = "nat (52 - ?e)"
  have q: "max (?e - 52) (- 1074) = ?e - 52"
    using e0 by simp
  have p: "(2::rat) powi (?e - 52) = 1 / 2 ^ ?k"
  proof -
    have "(2::rat) powi (- (52 - ?e)) = 1 / 2 powi (52 - ?e)"
      by (rule power_int_minus_divide)
    moreover have "(2::rat) powi (52 - ?e) = 2 ^ ?k"
      using e52 by (intro powi_nat) simp
    ultimately show ?thesis by simp
  qed
  have m: "?a / 2 powi (?e - 52) = of_int (int n * 2 ^ ?k)"
    unfolding p by simp
  have y: "of_int (round_half_even (?a / 2 powi (?e - 52))) * 2 powi (?e - 52) = ?a"
    unfolding m round_half_even_of_int unfolding p by simp
  have fin: "\<not> ?a \<ge> 2 powi 1024"
  proof
    assume "?a \<ge> 2 powi 1024"
    with lt have "(2::rat) powi 1024 < 2 ^ 53" by simp
    then show False by simp
  qed
  show ?thesis
    using pos fin by (simp add: is_double_def round_double_def Let_def q y)
qed

lemma is_double_of_int:
  assumes "\<bar>i\<bar> < 2 ^ 53"
  shows "is_double (of_int i)"
proof (cases "i \<ge> 0")
  case True
  with assms have "nat i < 2 ^ 53" by (simp add: nat_less_iff)
  from is_double_of_nat [OF this] True show ?thesis by simp
next
  case False
  with assms have "nat (- i) < 2 ^ 53" by (simp add: nat_less_iff)
  from is_double_of_nat [OF this] False
  have "round_double (of_int (- i)) = Num (of_int (- i))"
    by (simp add: is_double_def)
  then have "round_double (- of_int (- i)) = Num (- of_int (- i))"
    by (simp only: round_double_neg js_negate.simps)
  then show ?thesis by (simp add: is_double_def)
qed

lemma is_double_numeral: "numeral w < (2 ^ 53 :: int) \<Longrightarrow> is_double (numeral w)"
  using is_double_of_int [of "numeral w"] by simp

section \<open>The accumulation loop and the fetch\<close>

lemma foldl_addHolding:
  "foldl addHolding (v, c, n) hs =
     (foldl js_plus v (map currentValue hs), foldl js_plus c (map costBasis hs),
      foldl js_plus n (map (\<lambda>h. number_of (of_int (shares h))) hs))"
  by (induction hs arbitrary: v c n) (simp_all add: addHolding_def)

lemma code_totals:
  "foldl addHolding (Num 0, Num 0, Num 0) hs =
     (double_total_value hs, double_total_cost hs, double_total_shares hs)"
  by (simp add: foldl_addHolding double_total_value_def double_total_cost_def
      double_total_shares_def double_sum_def currentValue_def [abs_def] costBasis_def [abs_def])

lemma getQuarterlyPerformance_returns:
  "\<exists>qs s'. getQuarterlyPerformance lc r s userId = (Inr qs, s')"
  by (simp add: getQuarterlyPerformance_def Let_def split: sum.split)

lemma getUserPortfolio_cases:
  "(\<exists>e. getUserPortfolio r s u q y = (Inl e, console_error ''Error fetching portfolio:'' e s))
   \<or> (\<exists>hs. getUserPortfolio r s u q y = (Inr hs, s))"
  by (simp add: getUserPortfolio_def split: sum.split)

lemma getUserPortfolio_Inr_state:
  assumes "fst (getUserPortfolio r s u q y) = Inr hs"
  shows "getUserPortfolio r s u q y = (Inr hs, s)"
  using assms getUserPortfolio_cases [of r s u q y] by auto

text \<open>Rows that satisfy the constraints of the table cost something.\<close>

lemma spec_total_cost_pos:
  assumes "\<forall>h\<in>set hs. holding_ok h" and "hs \<noteq> []"
  shows "spec_total_cost hs > 0"
  using assms
proof (induction hs)
  case Nil
  then show ?case by simp
next
  case (Cons h hs)
  have h: "of_int (shares h) * purchase_price h > 0"
    using Cons.prems(1) by (simp add: holding_ok_def)
  have "spec_total_cost hs \<ge> 0"
  proof (cases "hs = []")
    case True
    then show ?thesis by (simp add: spec_total_cost_def)
  next
    case False
    with Cons show ?thesis by (simp add: less_imp_le)
  qed
  with h show ?case by (simp add: spec_total_cost_def)
qed

text \<open>What \<^verbatim>\<open>getPortfolioSummary\<close> returns once the fetch has delivered the rows \<open>hs\<close>.\<close>

lemma getPortfolioSummary_fields:
  assumes "fst (getUserPortfolio r s userId None None) = Inr hs"
  shows "\<exists>qs s'. getPortfolioSummary lc r s userId =
           (Inr \<lparr>totalValue = double_total_value hs,
                 totalGainLoss = js_minus (double_total_value hs) (double_total_cost hs),
                 totalGainLossPercent =
                   gain_loss_percent (double_total_value hs) (double_total_cost hs),
                 totalShares = double_total_shares hs,
                 quarterlyPerformance = qs\<rparr>, s')
           \<and> getQuarterlyPerformance lc r s userId = (Inr qs, s')"
proof -
  obtain qs s' where q: "getQuarterlyPerformance lc r s userId = (Inr qs, s')"
    using getQuarterlyPerformance_returns by blast
  have u: "getUserPortfolio r s userId None None = (Inr hs, s)"
    using assms by (rule getUserPortfolio_Inr_state)
  show ?thesis
    by (simp add: getPortfolioSummary_def u q code_totals Let_def gain_loss_percent_def)
qed

lemma fetch_example:
  "fst (getUserPortfolio (table_remote example_holdings) initial_state ''u'' None None)
     = Inr example_holdings"
  by (simp add: getUserPortfolio_def await_query_def table_remote_def run_query_def
      portfolio_query_def example_holdings_def row_def)

lemma fetch_empty:
  "fst (getUserPortfolio (table_remote []) initial_state ''u'' None None) = Inr []"
  by (simp add: getUserPortfolio_def await_query_def table_remote_def run_query_def
      portfolio_query_def)

section \<open>The state of the service\<close>

text \<open>
  No operation looks at the cache: started with another cache it gives the same result and
  leaves that cache behind.
\<close>

lemma getUserPortfolio_cache:
  "getUserPortfolio r (s\<lparr>cache := c\<rparr>) u q y =
     (fst (getUserPortfolio r s u q y), (snd (getUserPortfolio r s u q y))\<lparr>cache := c\<rparr>)"
  by (simp add: getUserPortfolio_def console_error_def split: sum.split)

lemma getQuarterlyPerformance_cache:
  "getQuarterlyPerformance lc r (s\<lparr>cache := c\<rparr>) u =
     (fst (getQuarterlyPerformance lc r s u), (snd (getQuarterlyPerformance lc r s u))\<lparr>cache := c\<rparr>)"
  by (simp add: getQuarterlyPerformance_def console_error_def Let_def split: sum.split)

lemma getAvailableQuarters_cache:
  "getAvailableQuarters r (s\<lparr>cache := c\<rparr>) u =
     (fst (getAvailableQuarters r s u), (snd (getAvailableQuarters r s u))\<lparr>cache := c\<rparr>)"
  by (simp add: getAvailableQuarters_def console_error_def Let_def split: sum.split)

lemma console_error_cache:
  "console_error m e (s\<lparr>cache := c\<rparr>) = (console_error m e s)\<lparr>cache := c\<rparr>"
  by (simp add: console_error_def)

lemma getPortfolioSummary_cache:
  "getPortfolioSummary lc r (s\<lparr>cache := c\<rparr>) u =
     (fst (getPortfolioSummary lc r s u), (snd (getPortfolioSummary lc r s u))\<lparr>cache := c\<rparr>)"
proof (cases "getUserPortfolio r s u None None")
  case (Pair res s1)
  then have a: "getUserPortfolio r (s\<lparr>cache := c\<rparr>) u None None = (res, s1\<lparr>cache := c\<rparr>)"
    by (simp add: getUserPortfolio_cache)
  show ?thesis
  proof (cases res)
    case (Inl e)
    with Pair a show ?thesis
      by (simp add: getPortfolioSummary_def console_error_cache)
  next
    case (Inr hs)
    obtain qres s2 where q: "getQuarterlyPerformance lc r s1 u = (qres, s2)"
      by (cases "getQuarterlyPerformance lc r s1 u")
    then have q': "getQuarterlyPerformance lc r (s1\<lparr>cache := c\<rparr>) u = (qres, s2\<lparr>cache := c\<rparr>)"
      by (simp add: getQuarterlyPerformance_cache)
    from Pair a Inr q q' show ?thesis
      by (cases qres)
         (simp_all add: getPortfolioSummary_def console_error_cache Let_def split: prod.split)
  qed
qed

lemma cache_console_error: "cache (console_error m e s) = cache s"
  by (simp add: console_error_def)

lemma getUserPortfolio_keeps_cache: "cache (snd (getUserPortfolio r s u q y)) = cache s"
  by (simp add: getUserPortfolio_def cache_console_error split: sum.split)

lemma getQuarterlyPerformance_keeps_cache: "cache (snd (getQuarterlyPerformance lc r s u)) = cache s"
  by (simp add: getQuarterlyPerformance_def cache_console_error Let_def split: sum.split)

lemma getAvailableQuarters_keeps_cache: "cache (snd (getAvailableQuarters r s u)) = cache s"
  by (simp add: getAvailableQuarters_def cache_console_error Let_def split: sum.split)

lemma getPortfolioSummary_keeps_cache: "cache (snd (getPortfolioSummary lc r s u)) = cache s"
proof (cases "getUserPortfolio r s u None None")
  case (Pair res s1)
  then have c1: "cache s1 = cache s"
    using getUserPortfolio_keeps_cache [of r s u None None] by simp
  show ?thesis
  proof (cases res)
    case (Inl e)
    with Pair c1 show ?thesis
      by (simp add: getPortfolioSummary_def cache_console_error)
  next
    case (Inr hs)
    obtain qres s2 where q: "getQuarterlyPerformance lc r s1 u = (qres, s2)"
      by (cases "getQuarterlyPerformance lc r s1 u")
    then have "cache s2 = cache s1"
      using getQuarterlyPerformance_keeps_cache [of lc r s1 u] by simp
    with Pair c1 Inr q show ?thesis
      by (cases qres)
         (simp_all add: getPortfolioSummary_def cache_console_error Let_def split: prod.split)
  qed
qed

text \<open>The result of an operation does not depend on the state it is started in.\<close>

lemma getUserPortfolio_state_free:
  "fst (getUserPortfolio r s' u q y) = fst (getUserPortfolio r s u q y)"
  by (simp add: getUserPortfolio_def split: sum.split)

lemma getQuarterlyPerformance_state_free:
  "fst (getQuarterlyPerformance lc r s' u) = fst (getQuarterlyPerformance lc r s u)"
  by (simp add: getQuarterlyPerformance_def Let_def split: sum.split)

lemma getQuarterlyPerformance_ok_state:
  "await_query r (quarterly_query u) = Inr d \<Longrightarrow> snd (getQuarterlyPerformance lc r s u) = s"
  by (simp add: getQuarterlyPerformance_def Let_def)

lemma getPortfolioSummary_state_free:
  "fst (getPortfolioSummary lc r s' u) = fst (getPortfolioSummary lc r s u)"
proof (cases "fst (getUserPortfolio r s u None None)")
  case (Inl e)
  then have "fst (getUserPortfolio r s' u None None) = Inl e"
    by (simp add: getUserPortfolio_state_free [of r s' u None None s])
  then obtain s1' where a: "getUserPortfolio r s' u None None = (Inl e, s1')"
    by (cases "getUserPortfolio r s' u None None") simp
  from Inl obtain s1 where b: "getUserPortfolio r s u None None = (Inl e, s1)"
    by (cases "getUserPortfolio r s u None None") simp
  show ?thesis
    by (simp add: getPortfolioSummary_def a b)
next
  case (Inr hs)
  then have "fst (getUserPortfolio r s' u None None) = Inr hs"
    by (simp add: getUserPortfolio_state_free [of r s' u None None s])
  from getPortfolioSummary_fields [OF this, where lc = lc]
    getPortfolioSummary_fields [OF Inr, where lc = lc]
    getQuarterlyPerformance_state_free [of lc r s' u s]
  show ?thesis by auto
qed

section \<open>Arithmetic on doubles\<close>

lemma js_times_Num: "js_times (Num x) (Num y) = round_double (x * y)"
  by (simp add: js_times_def)

lemma js_divide_Num: "y \<noteq> 0 \<Longrightarrow> js_divide (Num x) (Num y) = round_double (x / y)"
  by (simp add: js_divide_def)

lemma js_minus_Num: "js_minus (Num x) (Num y) = round_double (x - y)"
  by (simp add: js_minus_def)

lemma js_greater_Num: "js_greater (Num x) (Num y) \<longleftrightarrow> x > y"
  by (simp add: js_greater_def)

lemma is_double_0: "is_double 0"
  by (simp add: is_double_def round_double_def)

lemma is_double_1: "is_double 1"
  using is_double_of_int [of 1] by simp

lemma double_total_snoc:
  "double_total_value (hs @ [h]) =
     js_plus (double_total_value hs)
       (js_times (number_of (of_int (shares h))) (number_of (current_price h)))"
  "double_total_cost (hs @ [h]) =
     js_plus (double_total_cost hs)
       (js_times (number_of (of_int (shares h))) (number_of (purchase_price h)))"
  "double_total_shares (hs @ [h]) =
     js_plus (double_total_shares hs) (number_of (of_int (shares h)))"
  by (simp_all add: double_total_value_def double_total_cost_def double_total_shares_def
      double_sum_def)

lemma spec_total_snoc:
  "spec_total_value (hs @ [h]) = spec_total_value hs + of_int (shares h) * current_price h"
  "spec_total_cost (hs @ [h]) = spec_total_cost hs + of_int (shares h) * purchase_price h"
  "spec_total_shares (hs @ [h]) = spec_total_shares hs + shares h"
  by (simp_all add: spec_total_value_def spec_total_cost_def spec_total_shares_def)

text \<open>Where no step rounds, the sums in doubles are the sums.\<close>

lemma double_totals_exact:
  assumes "list_all (\<lambda>h. is_double (of_int (shares h)) \<and> is_double (current_price h)
                 \<and> is_double (purchase_price h)
                 \<and> is_double (of_int (shares h) * current_price h)
                 \<and> is_double (of_int (shares h) * purchase_price h)) hs"
    and "list_all (\<lambda>p. is_double (spec_total_value p) \<and> is_double (spec_total_cost p)
                   \<and> is_double (of_int (spec_total_shares p))) (prefixes hs)"
  shows "double_total_value hs = Num (spec_total_value hs)
         \<and> double_total_cost hs = Num (spec_total_cost hs)
         \<and> double_total_shares hs = Num (of_int (spec_total_shares hs))"
  using assms
proof (induction hs rule: rev_induct)
  case Nil
  then show ?case
    by (simp add: double_total_value_def double_total_cost_def double_total_shares_def
        double_sum_def spec_total_value_def spec_total_cost_def spec_total_shares_def)
next
  case (snoc h hs)
  from snoc.prems have ih: "double_total_value hs = Num (spec_total_value hs)"
    "double_total_cost hs = Num (spec_total_cost hs)"
    "double_total_shares hs = Num (of_int (spec_total_shares hs))"
    using snoc.IH by simp_all
  from snoc.prems(1) have row: "round_double (of_int (shares h)) = Num (of_int (shares h))"
    "round_double (current_price h) = Num (current_price h)"
    "round_double (purchase_price h) = Num (purchase_price h)"
    "round_double (of_int (shares h) * current_price h) = Num (of_int (shares h) * current_price h)"
    "round_double (of_int (shares h) * purchase_price h) = Num (of_int (shares h) * purchase_price h)"
    by (simp_all add: is_double_def)
  from snoc.prems(2) have pre:
    "round_double (spec_total_value (hs @ [h])) = Num (spec_total_value (hs @ [h]))"
    "round_double (spec_total_cost (hs @ [h])) = Num (spec_total_cost (hs @ [h]))"
    "round_double (of_int (spec_total_shares (hs @ [h]))) = Num (of_int (spec_total_shares (hs @ [h])))"
    by (simp_all add: is_double_def)
  have v: "double_total_value (hs @ [h]) = Num (spec_total_value (hs @ [h]))"
    using pre(1) by (simp add: double_total_snoc ih number_of_def row js_times_Num spec_total_snoc)
  have c: "double_total_cost (hs @ [h]) = Num (spec_total_cost (hs @ [h]))"
    using pre(2) by (simp add: double_total_snoc ih number_of_def row js_times_Num spec_total_snoc)
  have n: "double_total_shares (hs @ [h]) = Num (of_int (spec_total_shares (hs @ [h])))"
    using pre(3) by (simp add: double_total_snoc ih number_of_def row spec_total_snoc)
  from v c n show ?case by simp
qed

text \<open>The roundings of the examples.\<close>

lemma string_of_int_2024: "string_of_int 2024 = ''2024''"
  by (simp add: string_of_int_def string_of_nat.simps)

lemma round_double_tenth:
  "round_double (1 / 10) = Num (3602879701896397 / 36028797018963968)"
  by (subst round_double_pos [where e = "- 4"])
     (simp_all add: round_half_even_def Let_def floor_quotient_numeral)

lemma round_double_fifth:
  "round_double (1 / 5) = Num (3602879701896397 / 18014398509481984)"
  by (subst round_double_pos [where e = "- 3"])
     (simp_all add: round_half_even_def Let_def floor_quotient_numeral)

lemma round_double_3_20:
  "round_double (3 / 20) = Num (5404319552844595 / 36028797018963968)"
  by (subst round_double_pos [where e = "- 3"])
     (simp_all add: round_half_even_def Let_def floor_quotient_numeral)

lemma is_double_tenth: "is_double (3602879701896397 / 36028797018963968)"
  unfolding is_double_def
  by (subst round_double_pos [where e = "- 4"])
     (simp_all add: round_half_even_def Let_def floor_quotient_numeral)

lemma is_double_fifth: "is_double (3602879701896397 / 18014398509481984)"
  unfolding is_double_def
  by (subst round_double_pos [where e = "- 3"])
     (simp_all add: round_half_even_def Let_def floor_quotient_numeral)

lemma is_double_3_20: "is_double (5404319552844595 / 36028797018963968)"
  unfolding is_double_def
  by (subst round_double_pos [where e = "- 3"])
     (simp_all add: round_half_even_def Let_def floor_quotient_numeral)

lemma rounding_value:
  "round_double (10808639105689191 / 36028797018963968)
     = Num (1351079888211149 / 4503599627370496)"
  by (subst round_double_pos [where e = "- 2"])
     (simp_all add: round_half_even_def Let_def floor_quotient_numeral)

lemma rounding_cost:
  "round_double (5404319552844595 / 18014398509481984)
     = Num (5404319552844595 / 18014398509481984)"
  by (subst round_double_pos [where e = "- 2"])
     (simp_all add: round_half_even_def Let_def floor_quotient_numeral)

lemma rounding_gain:
  "round_double (1 / 18014398509481984) = Num (1 / 18014398509481984)"
  by (subst round_double_pos [where e = "- 54"])
     (simp_all add: round_half_even_def Let_def floor_quotient_numeral)

lemma rounding_quotient:
  "round_double (1 / 5404319552844595)
     = Num (7505999378950827 / 40564819207303340847894502572032)"
  by (subst round_double_pos [where e = "- 53"])
     (simp_all add: round_half_even_def Let_def floor_quotient_numeral)

lemma rounding_percent:
  "round_double (187649984473770675 / 10141204801825835211973625643008)
     = Num (2932031007402667 / 158456325028528675187087900672)"
  by (subst round_double_pos [where e = "- 46"])
     (simp_all add: round_half_even_def Let_def floor_quotient_numeral)

lemma rounding_products:
  "currentValue (row u 1 p (1 / 10) q y t) = Num (3602879701896397 / 36028797018963968)"
  "currentValue (row u 1 p (1 / 5) q y t) = Num (3602879701896397 / 18014398509481984)"
  "costBasis (row u 1 (3 / 20) c q y t) = Num (5404319552844595 / 36028797018963968)"
  "number_of (of_int (shares (row u 1 p c q y t))) = Num 1"
  using is_double_1 is_double_tenth is_double_fifth is_double_3_20
  by (simp_all add: currentValue_def costBasis_def row_def number_of_def is_double_def
      js_times_Num round_double_tenth round_double_fifth round_double_3_20)

lemma rounding_totals:
  "foldl addHolding (Num 0, Num 0, Num 0) rounding_holdings =
     (Num (1351079888211149 / 4503599627370496), Num (5404319552844595 / 18014398509481984),
      Num 2)"
proof -
  have two: "round_double 2 = Num 2"
    using is_double_numeral [of "Num.Bit0 Num.One"] by (simp add: is_double_def)
  show ?thesis
    using is_double_1 is_double_tenth is_double_fifth is_double_3_20
    by (simp add: rounding_holdings_def addHolding_def rounding_products is_double_def
        rounding_value rounding_cost two)
qed

lemma rounding_percent_of_totals:
  "js_minus (Num (1351079888211149 / 4503599627370496))
            (Num (5404319552844595 / 18014398509481984)) = Num (1 / 18014398509481984)"
  "js_divide (Num (1 / 18014398509481984)) (Num (5404319552844595 / 18014398509481984))
     = Num (7505999378950827 / 40564819207303340847894502572032)"
  "js_times (Num (7505999378950827 / 40564819207303340847894502572032)) (Num 100)
     = Num (2932031007402667 / 158456325028528675187087900672)"
  "js_greater (Num (5404319552844595 / 18014398509481984)) (Num 0)"
  by (simp_all add: js_minus_Num js_divide_Num js_times_Num js_greater_Num rounding_gain
      rounding_quotient rounding_percent)

lemma no_rounding_example: "no_rounding example_holdings"
  by (simp add: no_rounding_def example_holdings_def row_def spec_total_value_def
      spec_total_cost_def spec_total_shares_def is_double_numeral is_double_0)

lemma round_double_3_22:
  "round_double (3 / 22) = Num (1228254443828317 / 9007199254740992)"
  by (subst round_double_pos [where e = "- 3"])
     (simp_all add: round_half_even_def Let_def floor_quotient_numeral)

lemma percent_example:
  "js_times (Num (1228254443828317 / 9007199254740992)) (Num 100)
     = Num (7676590273926981 / 562949953421312)"
  unfolding js_times_Num
  by (subst round_double_pos [where e = 3])
     (simp_all add: round_half_even_def Let_def floor_quotient_numeral)

section \<open>The portfolio summary\<close>

text \<open>
  C1. Whatever rows the fetch delivers, \<^verbatim>\<open>getPortfolioSummary\<close> returns a summary whose
  total value is the sum of shares times current price taken in doubles, from left to
  right, every product and every partial sum rounded to the nearest double; whose
  gain/loss is the rounded difference of total value and total cost; whose gain/loss
  percent is gain/loss divided by total cost, times 100, each step rounded, when the total
  cost is greater than 0, and 0 otherwise; and whose total shares is the sum of the shares
  in doubles. The accumulator \<^verbatim>\<open>totalCost\<close>, which is not a field of the result, is the sum
  of shares times purchase price in doubles. Where no step of the sums rounds, total
  value, total cost, gain/loss and total shares are the exact sums, and the percent is the
  exact quotient rounded, times 100, rounded.
\<close>

theorem getPortfolioSummary_sums:
  assumes "fst (getUserPortfolio r s userId None None) = Inr hs"
  shows "\<exists>sm. fst (getPortfolioSummary lc r s userId) = Inr sm
           \<and> totalValue sm = double_total_value hs
           \<and> fst (snd (foldl addHolding (Num 0, Num 0, Num 0) hs)) = double_total_cost hs
           \<and> totalGainLoss sm = js_minus (double_total_value hs) (double_total_cost hs)
           \<and> totalGainLossPercent sm =
               (if js_greater (double_total_cost hs) (Num 0)
                then js_times (js_divide (totalGainLoss sm) (double_total_cost hs)) (Num 100)
                else Num 0)
           \<and> totalShares sm = double_total_shares hs
           \<and> (no_rounding hs \<longrightarrow>
                 totalValue sm = Num (spec_total_value hs)
                 \<and> double_total_cost hs = Num (spec_total_cost hs)
                 \<and> totalGainLoss sm = Num (spec_total_value hs - spec_total_cost hs)
                 \<and> totalShares sm = Num (of_int (spec_total_shares hs))
                 \<and> (spec_total_cost hs > 0 \<longrightarrow>
                       totalGainLossPercent sm =
                         js_times (round_double ((spec_total_value hs - spec_total_cost hs)
                                                   / spec_total_cost hs)) (Num 100)))"
proof -
  from getPortfolioSummary_fields [OF assms, where lc = lc] obtain qs s' where
    res: "getPortfolioSummary lc r s userId =
           (Inr \<lparr>totalValue = double_total_value hs,
                 totalGainLoss = js_minus (double_total_value hs) (double_total_cost hs),
                 totalGainLossPercent =
                   gain_loss_percent (double_total_value hs) (double_total_cost hs),
                 totalShares = double_total_shares hs,
                 quarterlyPerformance = qs\<rparr>, s')"
    by blast
  have exact: "double_total_value hs = Num (spec_total_value hs)"
    "double_total_cost hs = Num (spec_total_cost hs)"
    "double_total_shares hs = Num (of_int (spec_total_shares hs))"
    "round_double (spec_total_value hs - spec_total_cost hs)
       = Num (spec_total_value hs - spec_total_cost hs)"
    if nr: "no_rounding hs"
  proof -
    from nr have "double_total_value hs = Num (spec_total_value hs)
         \<and> double_total_cost hs = Num (spec_total_cost hs)
         \<and> double_total_shares hs = Num (of_int (spec_total_shares hs))"
      by (intro double_totals_exact) (simp_all add: no_rounding_def)
    then show "double_total_value hs = Num (spec_total_value hs)"
      "double_total_cost hs = Num (spec_total_cost hs)"
      "double_total_shares hs = Num (of_int (spec_total_shares hs))"
      by simp_all
    from nr show "round_double (spec_total_value hs - spec_total_cost hs)
                    = Num (spec_total_value hs - spec_total_cost hs)"
      by (simp add: no_rounding_def is_double_def)
  qed
  have gl: "js_minus (double_total_value hs) (double_total_cost hs)
              = Num (spec_total_value hs - spec_total_cost hs)"
    if "no_rounding hs"
    by (simp add: exact [OF that] js_minus_Num)
  have pct: "gain_loss_percent (double_total_value hs) (double_total_cost hs) =
               js_times (round_double ((spec_total_value hs - spec_total_cost hs)
                                                   / spec_total_cost hs)) (Num 100)"
    if "no_rounding hs" and "spec_total_cost hs > 0"
    using that(2)
    by (simp add: gain_loss_percent_def exact [OF that(1)] js_minus_Num js_greater_Num
        js_divide_Num)
  let ?sm = "\<lparr>totalValue = double_total_value hs,
                 totalGainLoss = js_minus (double_total_value hs) (double_total_cost hs),
                 totalGainLossPercent =
                   gain_loss_percent (double_total_value hs) (double_total_cost hs),
                 totalShares = double_total_shares hs,
                 quarterlyPerformance = qs\<rparr>"
  have f0: "fst (getPortfolioSummary lc r s userId) = Inr ?sm"
    using res by simp
  have f1: "totalValue ?sm = double_total_value hs"
    by simp
  have f2: "fst (snd (foldl addHolding (Num 0, Num 0, Num 0) hs)) = double_total_cost hs"
    by (simp add: code_totals)
  have f3: "totalGainLoss ?sm = js_minus (double_total_value hs) (double_total_cost hs)"
    by simp
  have f4: "totalGainLossPercent ?sm =
               (if js_greater (double_total_cost hs) (Num 0)
                then js_times (js_divide (totalGainLoss ?sm) (double_total_cost hs)) (Num 100)
                else Num 0)"
    by (simp add: gain_loss_percent_def)
  have f5: "totalShares ?sm = double_total_shares hs"
    by simp
  have f6: "no_rounding hs \<longrightarrow>
                 totalValue ?sm = Num (spec_total_value hs)
                 \<and> double_total_cost hs = Num (spec_total_cost hs)
                 \<and> totalGainLoss ?sm = Num (spec_total_value hs - spec_total_cost hs)
                 \<and> totalShares ?sm = Num (of_int (spec_total_shares hs))
                 \<and> (spec_total_cost hs > 0 \<longrightarrow>
                       totalGainLossPercent ?sm =
                         js_times (round_double ((spec_total_value hs - spec_total_cost hs)
                                                   / spec_total_cost hs)) (Num 100))"
    using exact(1,2,3) gl pct by simp
  show ?thesis
    by (rule exI [of _ ?sm]) (intro conjI f0 f1 f2 f3 f4 f5 f6)
qed

theorem getPortfolioSummary_sums_witness:
  "fst (getUserPortfolio (table_remote example_holdings) initial_state ''u'' None None)
     = Inr example_holdings
   \<and> no_rounding example_holdings
   \<and> (\<exists>sm. fst (getPortfolioSummary compare_code_units (table_remote example_holdings)
                  initial_state ''u'') = Inr sm
          \<and> totalValue sm = Num 1250
          \<and> fst (snd (foldl addHolding (Num 0, Num 0, Num 0) example_holdings)) = Num 1100
          \<and> totalGainLoss sm = Num 150
          \<and> totalGainLossPercent sm = Num (7676590273926981 / 562949953421312)
          \<and> totalShares sm = Num 15)"
proof -
  have c: "spec_total_cost example_holdings = 1100"
    by (simp add: spec_total_cost_def example_holdings_def row_def)
  have v: "spec_total_value example_holdings = 1250"
    by (simp add: spec_total_value_def example_holdings_def row_def)
  have n: "spec_total_shares example_holdings = 15"
    by (simp add: spec_total_shares_def example_holdings_def row_def)
  from getPortfolioSummary_sums [OF fetch_example, where lc = compare_code_units]
    no_rounding_example
  obtain sm where
    "fst (getPortfolioSummary compare_code_units (table_remote example_holdings)
            initial_state ''u'') = Inr sm"
    and "totalValue sm = Num 1250"
    and "fst (snd (foldl addHolding (Num 0, Num 0, Num 0) example_holdings)) = Num 1100"
    and "totalGainLoss sm = Num 150"
    and "totalGainLossPercent sm = js_times (round_double (3 / 22)) (Num 100)"
    and "totalShares sm = Num 15"
    unfolding c v n by auto
  with fetch_example no_rounding_example show ?thesis
    by (simp add: round_double_3_22 percent_example)
qed

text \<open>
  C1, as the specification words it, with the exact sums, does not hold of rows that the
  table accepts: of one share bought at 0.15 and worth 0.10 and one share bought at 0.15
  and worth 0.20, the sums are 0.3 and 0.3 with a gain/loss of 0, and the summary has a
  total value of 0.30000000000000004, a gain/loss of \<open>2 powi - 54\<close> and a percent that is
  not 0.
\<close>

theorem getPortfolioSummary_rounding_counterexample:
  "list_all holding_ok rounding_holdings
   \<and> fst (getUserPortfolio (table_remote rounding_holdings) initial_state ''u'' None None)
       = Inr rounding_holdings
   \<and> spec_total_value rounding_holdings = 3 / 10
   \<and> spec_total_cost rounding_holdings = 3 / 10
   \<and> fst (getPortfolioSummary compare_code_units (table_remote rounding_holdings)
            initial_state ''u'')
       = Inr \<lparr>totalValue = Num (1351079888211149 / 4503599627370496),
              totalGainLoss = Num (1 / 18014398509481984),
              totalGainLossPercent = Num (2932031007402667 / 158456325028528675187087900672),
              totalShares = Num 2,
              quarterlyPerformance =
                [\<lparr>quarterLabel = ''Q1 2024'',
                  performance = Num (2932031007402667 / 158456325028528675187087900672)\<rparr>]\<rparr>
   \<and> fst (snd (foldl addHolding (Num 0, Num 0, Num 0) rounding_holdings))
       = Num (5404319552844595 / 18014398509481984)
   \<and> Num (1351079888211149 / 4503599627370496) \<noteq> Num (spec_total_value rounding_holdings)
   \<and> Num (5404319552844595 / 18014398509481984) \<noteq> Num (spec_total_cost rounding_holdings)
   \<and> Num (1 / 18014398509481984)
       \<noteq> Num (spec_total_value rounding_holdings - spec_total_cost rounding_holdings)"
proof -
  have ok: "list_all holding_ok rounding_holdings"
    by (simp add: rounding_holdings_def row_def holding_ok_def)
  have f: "getUserPortfolio (table_remote rounding_holdings) initial_state ''u'' None None
             = (Inr rounding_holdings, initial_state)"
    by (simp add: getUserPortfolio_def await_query_def table_remote_def run_query_def
        portfolio_query_def rounding_holdings_def row_def)
  have v: "spec_total_value rounding_holdings = 3 / 10"
    by (simp add: spec_total_value_def rounding_holdings_def row_def)
  have c: "spec_total_cost rounding_holdings = 3 / 10"
    by (simp add: spec_total_cost_def rounding_holdings_def row_def)
  have k: "quarterKey (row u n p c q 2024 t) = q @ '' 2024''" for u n p c q t
    by (simp add: quarterKey_def row_def string_of_int_2024)
  have m: "foldl addToQuarter [] rounding_holdings =
             [(''Q1 2024'', Num (1351079888211149 / 4503599627370496),
               Num (5404319552844595 / 18014398509481984))]"
    using is_double_tenth is_double_3_20
    by (simp add: rounding_holdings_def addToQuarter_def k rounding_products is_double_def
        rounding_value rounding_cost)
  have q: "getQuarterlyPerformance compare_code_units (table_remote rounding_holdings)
             initial_state ''u''
           = (Inr [\<lparr>quarterLabel = ''Q1 2024'',
                  performance = Num (2932031007402667 / 158456325028528675187087900672)\<rparr>],
              initial_state)"
  proof -
    have "await_query (table_remote rounding_holdings) (quarterly_query ''u'')
            = Inr (Some rounding_holdings)"
      by (simp add: await_query_def table_remote_def run_query_def quarterly_query_def
          rounding_holdings_def row_def)
    then show ?thesis
      by (simp add: getQuarterlyPerformance_def m quarterEntry_def sort_by_def
          rounding_percent_of_totals)
  qed
  have s: "fst (getPortfolioSummary compare_code_units (table_remote rounding_holdings)
            initial_state ''u'')
       = Inr \<lparr>totalValue = Num (1351079888211149 / 4503599627370496),
              totalGainLoss = Num (1 / 18014398509481984),
              totalGainLossPercent = Num (2932031007402667 / 158456325028528675187087900672),
              totalShares = Num 2,
              quarterlyPerformance =
                [\<lparr>quarterLabel = ''Q1 2024'',
                  performance = Num (2932031007402667 / 158456325028528675187087900672)\<rparr>]\<rparr>"
    by (simp add: getPortfolioSummary_def f rounding_totals q rounding_percent_of_totals)
  show ?thesis
    using ok f s by (simp add: v c rounding_totals)
qed

lemma round_double_3_10:
  "round_double (3 / 10) = Num (5404319552844595 / 18014398509481984)"
  by (subst round_double_pos [where e = "- 2"])
     (simp_all add: round_half_even_def Let_def floor_quotient_numeral)

lemma fetch_free_share:
  "fst (getUserPortfolio (table_remote [row ''u'' 1 0 5 ''Q1'' 2024 1]) initial_state ''u''
          None None) = Inr [row ''u'' 1 0 5 ''Q1'' 2024 1]"
  by (simp add: getUserPortfolio_def await_query_def table_remote_def run_query_def
      portfolio_query_def row_def)

lemma no_rounding_free_share: "no_rounding [row ''u'' 1 0 5 ''Q1'' 2024 1]"
  by (simp add: no_rounding_def row_def spec_total_value_def spec_total_cost_def
      spec_total_shares_def is_double_numeral is_double_0 is_double_1)

text \<open>
  C4. \<^verbatim>\<open>getPortfolioSummary\<close> returns a summary (it does not fail) whose gain/loss percent
  is the number 0, not \<^verbatim>\<open>NaN\<close>, whenever the total cost it has computed is not greater than
  0, in particular when it is 0. When the sum of shares times purchase price of the fetched
  rows is 0 and the rows satisfy the constraints of the table, the percent is 0 and total
  value, total cost, gain/loss and total shares are 0 as well; when that sum is 0 and no
  step of the sums rounds, the percent and the computed total cost are 0.
\<close>

theorem getPortfolioSummary_zero_cost:
  assumes "fst (getUserPortfolio r s userId None None) = Inr hs"
  shows "\<exists>sm. fst (getPortfolioSummary lc r s userId) = Inr sm
           \<and> (\<not> js_greater (fst (snd (foldl addHolding (Num 0, Num 0, Num 0) hs))) (Num 0)
                \<longrightarrow> totalGainLossPercent sm = Num 0)
           \<and> (fst (snd (foldl addHolding (Num 0, Num 0, Num 0) hs)) = Num 0
                \<longrightarrow> totalGainLossPercent sm = Num 0)
           \<and> (spec_total_cost hs = 0 \<and> (\<forall>h\<in>set hs. holding_ok h) \<longrightarrow>
                totalGainLossPercent sm = Num 0
                \<and> totalValue sm = Num 0
                \<and> fst (snd (foldl addHolding (Num 0, Num 0, Num 0) hs)) = Num 0
                \<and> totalGainLoss sm = Num 0 \<and> totalShares sm = Num 0)
           \<and> (spec_total_cost hs = 0 \<and> no_rounding hs \<longrightarrow>
                totalGainLossPercent sm = Num 0
                \<and> fst (snd (foldl addHolding (Num 0, Num 0, Num 0) hs)) = Num 0)"
proof -
  from getPortfolioSummary_fields [OF assms, where lc = lc] obtain qs s' where
    res: "getPortfolioSummary lc r s userId =
           (Inr \<lparr>totalValue = double_total_value hs,
                 totalGainLoss = js_minus (double_total_value hs) (double_total_cost hs),
                 totalGainLossPercent =
                   gain_loss_percent (double_total_value hs) (double_total_cost hs),
                 totalShares = double_total_shares hs,
                 quarterlyPerformance = qs\<rparr>, s')"
    by blast
  let ?sm = "\<lparr>totalValue = double_total_value hs,
                 totalGainLoss = js_minus (double_total_value hs) (double_total_cost hs),
                 totalGainLossPercent =
                   gain_loss_percent (double_total_value hs) (double_total_cost hs),
                 totalShares = double_total_shares hs,
                 quarterlyPerformance = qs\<rparr>"
  have cost: "fst (snd (foldl addHolding (Num 0, Num 0, Num 0) hs)) = double_total_cost hs"
    by (simp add: code_totals)
  have f0: "fst (getPortfolioSummary lc r s userId) = Inr ?sm"
    using res by simp
  have f1: "\<not> js_greater (fst (snd (foldl addHolding (Num 0, Num 0, Num 0) hs))) (Num 0)
              \<longrightarrow> totalGainLossPercent ?sm = Num 0"
    by (simp add: cost gain_loss_percent_def)
  have f2: "fst (snd (foldl addHolding (Num 0, Num 0, Num 0) hs)) = Num 0
              \<longrightarrow> totalGainLossPercent ?sm = Num 0"
    by (simp add: cost gain_loss_percent_def js_greater_Num)
  have f3: "spec_total_cost hs = 0 \<and> (\<forall>h\<in>set hs. holding_ok h) \<longrightarrow>
                totalGainLossPercent ?sm = Num 0
                \<and> totalValue ?sm = Num 0
                \<and> fst (snd (foldl addHolding (Num 0, Num 0, Num 0) hs)) = Num 0
                \<and> totalGainLoss ?sm = Num 0 \<and> totalShares ?sm = Num 0"
  proof (intro impI)
    assume a: "spec_total_cost hs = 0 \<and> (\<forall>h\<in>set hs. holding_ok h)"
    have "hs = []"
    proof (rule ccontr)
      assume "hs \<noteq> []"
      with a spec_total_cost_pos [of hs] show False by simp
    qed
    then show "totalGainLossPercent ?sm = Num 0
                \<and> totalValue ?sm = Num 0
                \<and> fst (snd (foldl addHolding (Num 0, Num 0, Num 0) hs)) = Num 0
                \<and> totalGainLoss ?sm = Num 0 \<and> totalShares ?sm = Num 0"
      by (simp add: double_total_value_def double_total_cost_def double_total_shares_def
          double_sum_def gain_loss_percent_def js_greater_Num js_minus_Num round_double_def)
  qed
  have f4: "spec_total_cost hs = 0 \<and> no_rounding hs \<longrightarrow>
                totalGainLossPercent ?sm = Num 0
                \<and> fst (snd (foldl addHolding (Num 0, Num 0, Num 0) hs)) = Num 0"
  proof (intro impI)
    assume a: "spec_total_cost hs = 0 \<and> no_rounding hs"
    then have "double_total_value hs = Num (spec_total_value hs)
         \<and> double_total_cost hs = Num (spec_total_cost hs)
         \<and> double_total_shares hs = Num (of_int (spec_total_shares hs))"
      by (intro double_totals_exact) (simp_all add: no_rounding_def)
    with a have "double_total_cost hs = Num 0" by simp
    then show "totalGainLossPercent ?sm = Num 0
                \<and> fst (snd (foldl addHolding (Num 0, Num 0, Num 0) hs)) = Num 0"
      by (simp add: cost gain_loss_percent_def js_greater_Num)
  qed
  show ?thesis
    by (rule exI [of _ ?sm]) (intro conjI f0 f1 f2 f3 f4)
qed

theorem getPortfolioSummary_zero_cost_witness:
  "fst (getUserPortfolio (table_remote []) initial_state ''u'' None None) = Inr []
   \<and> spec_total_cost [] = 0
   \<and> list_all holding_ok []
   \<and> no_rounding []
   \<and> fst (snd (foldl addHolding (Num 0, Num 0, Num 0) [])) = Num 0
   \<and> (\<exists>sm. fst (getPortfolioSummary compare_code_units (table_remote []) initial_state ''u'')
            = Inr sm
          \<and> totalGainLossPercent sm = Num 0 \<and> totalValue sm = Num 0
          \<and> totalGainLoss sm = Num 0 \<and> totalShares sm = Num 0)
   \<and> fst (getUserPortfolio (table_remote [row ''u'' 1 0 5 ''Q1'' 2024 1]) initial_state ''u''
            None None) = Inr [row ''u'' 1 0 5 ''Q1'' 2024 1]
   \<and> spec_total_cost [row ''u'' 1 0 5 ''Q1'' 2024 1] = 0
   \<and> no_rounding [row ''u'' 1 0 5 ''Q1'' 2024 1]
   \<and> (\<exists>sm. fst (getPortfolioSummary compare_code_units
                  (table_remote [row ''u'' 1 0 5 ''Q1'' 2024 1]) initial_state ''u'') = Inr sm
          \<and> totalGainLossPercent sm = Num 0)"
proof -
  have c: "spec_total_cost [] = 0"
    by (simp add: spec_total_cost_def)
  have n: "no_rounding []"
    by (simp add: no_rounding_def spec_total_value_def spec_total_cost_def
        spec_total_shares_def is_double_0)
  have c': "spec_total_cost [row ''u'' 1 0 5 ''Q1'' 2024 1] = 0"
    by (simp add: spec_total_cost_def row_def)
  from getPortfolioSummary_zero_cost [OF fetch_empty, where lc = compare_code_units] c
  have 1: "\<exists>sm. fst (getPortfolioSummary compare_code_units (table_remote []) initial_state ''u'')
            = Inr sm
          \<and> totalGainLossPercent sm = Num 0 \<and> totalValue sm = Num 0
          \<and> totalGainLoss sm = Num 0 \<and> totalShares sm = Num 0"
    by auto
  from getPortfolioSummary_zero_cost [OF fetch_free_share, where lc = compare_code_units]
    c' no_rounding_free_share
  have 2: "\<exists>sm. fst (getPortfolioSummary compare_code_units
                  (table_remote [row ''u'' 1 0 5 ''Q1'' 2024 1]) initial_state ''u'') = Inr sm
          \<and> totalGainLossPercent sm = Num 0"
    by auto
  from 1 2 fetch_empty fetch_free_share c c' n no_rounding_free_share show ?thesis
    by simp
qed

text \<open>
  The constraints of the table matter. Of rows that the table would refuse, with a
  purchase price below 0, the sum of shares times purchase price can be 0 where the sum
  in doubles is not: for the purchase prices 0.1, 0.2 and -0.3 of one share each it is
  \<open>2 powi - 54\<close>, and the code divides by it.
\<close>

lemma outside_the_constraints:
  "spec_total_cost [row ''u'' 1 (1 / 10) 1 ''Q1'' 2024 3, row ''u'' 1 (1 / 5) 1 ''Q1'' 2024 2,
                    row ''u'' 1 (- (3 / 10)) 1 ''Q1'' 2024 1] = 0
   \<and> double_total_cost [row ''u'' 1 (1 / 10) 1 ''Q1'' 2024 3, row ''u'' 1 (1 / 5) 1 ''Q1'' 2024 2,
                    row ''u'' 1 (- (3 / 10)) 1 ''Q1'' 2024 1] = Num (1 / 18014398509481984)
   \<and> \<not> holding_ok (row ''u'' 1 (- (3 / 10)) 1 ''Q1'' 2024 1)"
proof -
  have n: "round_double (- (3 / 10)) = Num (- (5404319552844595 / 18014398509481984))"
    by (simp only: round_double_neg round_double_3_10 js_negate.simps)
  have m: "round_double (- (5404319552844595 / 18014398509481984))
             = Num (- (5404319552844595 / 18014398509481984))"
    by (simp only: round_double_neg rounding_cost js_negate.simps)
  show ?thesis
    using is_double_1 is_double_tenth is_double_fifth
    by (simp add: spec_total_cost_def double_total_cost_def double_sum_def row_def
        holding_ok_def number_of_def js_times_Num is_double_def round_double_tenth
        round_double_fifth n m rounding_value rounding_gain)
qed

text \<open>
  C8. The aggregation is a function of the fetched rows alone and touches no state: two
  invocations that fetch the same rows, from whatever states and remote services, give the
  same total value, gain/loss, gain/loss percent and total shares; a second invocation
  after the first gives the same output; the cache is as before, and when the inner fetch
  of the quarterly data does not fail (a failure is reported on the console) the whole
  state is as before.
\<close>

theorem getPortfolioSummary_pure:
  assumes "fst (getUserPortfolio r s userId None None) = Inr hs"
    and "fst (getUserPortfolio r' s' userId' None None) = Inr hs"
  shows "(\<exists>sm sm'. fst (getPortfolioSummary lc r s userId) = Inr sm
            \<and> fst (getPortfolioSummary lc r' s' userId') = Inr sm'
            \<and> totalValue sm' = totalValue sm \<and> totalGainLoss sm' = totalGainLoss sm
            \<and> totalGainLossPercent sm' = totalGainLossPercent sm
            \<and> totalShares sm' = totalShares sm)
         \<and> fst (getPortfolioSummary lc r (snd (getPortfolioSummary lc r s userId)) userId)
             = fst (getPortfolioSummary lc r s userId)
         \<and> cache (snd (getPortfolioSummary lc r s userId)) = cache s
         \<and> ((\<exists>d. await_query r (quarterly_query userId) = Inr d) \<longrightarrow>
              snd (getPortfolioSummary lc r s userId) = s)"
proof -
  from getPortfolioSummary_fields [OF assms(1), where lc = lc] getPortfolioSummary_fields [OF assms(2), where lc = lc]
  have a: "\<exists>sm sm'. fst (getPortfolioSummary lc r s userId) = Inr sm
            \<and> fst (getPortfolioSummary lc r' s' userId') = Inr sm'
            \<and> totalValue sm' = totalValue sm \<and> totalGainLoss sm' = totalGainLoss sm
            \<and> totalGainLossPercent sm' = totalGainLossPercent sm
            \<and> totalShares sm' = totalShares sm"
    by auto
  have b: "fst (getPortfolioSummary lc r (snd (getPortfolioSummary lc r s userId)) userId)
             = fst (getPortfolioSummary lc r s userId)"
    by (rule getPortfolioSummary_state_free)
  have c: "cache (snd (getPortfolioSummary lc r s userId)) = cache s"
  proof -
    from getPortfolioSummary_fields [OF assms(1), where lc = lc] obtain qs s2 where
      p: "snd (getPortfolioSummary lc r s userId) = s2"
      and q: "getQuarterlyPerformance lc r s userId = (Inr qs, s2)"
      by auto
    have "cache (snd (getQuarterlyPerformance lc r s userId)) = cache s"
      by (simp add: getQuarterlyPerformance_def console_error_def Let_def split: sum.split)
    with p q show ?thesis by simp
  qed
  have d: "snd (getPortfolioSummary lc r s userId) = s"
    if "await_query r (quarterly_query userId) = Inr d" for d
  proof -
    from getPortfolioSummary_fields [OF assms(1), where lc = lc] obtain qs s2 where
      p: "snd (getPortfolioSummary lc r s userId) = s2"
      and q: "getQuarterlyPerformance lc r s userId = (Inr qs, s2)"
      by auto
    with getQuarterlyPerformance_ok_state [OF that, of lc s] show ?thesis by simp
  qed
  from a b c d show ?thesis by blast
qed

theorem getPortfolioSummary_pure_witness:
  "fst (getUserPortfolio (table_remote example_holdings) initial_state ''u'' None None)
     = Inr example_holdings
   \<and> fst (getUserPortfolio (table_remote example_holdings)
            \<lparr>cache = [(''k'', \<lparr>cached = ''v'', timestamp = 0\<rparr>)], console = []\<rparr> ''u'' None None)
     = Inr example_holdings
   \<and> await_query (table_remote example_holdings) (quarterly_query ''u'')
     = Inr (Some example_holdings)
   \<and> fst (getPortfolioSummary compare_code_units (table_remote example_holdings)
            (snd (getPortfolioSummary compare_code_units (table_remote example_holdings) initial_state ''u'')) ''u'')
     = fst (getPortfolioSummary compare_code_units (table_remote example_holdings) initial_state ''u'')
   \<and> snd (getPortfolioSummary compare_code_units (table_remote example_holdings) initial_state ''u'')
     = initial_state"
proof -
  have f: "fst (getUserPortfolio (table_remote example_holdings)
            \<lparr>cache = [(''k'', \<lparr>cached = ''v'', timestamp = 0\<rparr>)], console = []\<rparr> ''u'' None None)
     = Inr example_holdings"
    by (simp add: getUserPortfolio_def await_query_def table_remote_def run_query_def
      portfolio_query_def example_holdings_def row_def)
  have q: "await_query (table_remote example_holdings) (quarterly_query ''u'')
     = Inr (Some example_holdings)"
    by (simp add: await_query_def table_remote_def run_query_def quarterly_query_def
      example_holdings_def row_def)
  from getPortfolioSummary_pure [OF fetch_example f] fetch_example f q
  show ?thesis by auto
qed

section \<open>The cache\<close>

text \<open>
  C9. The cache is neither read nor written by \<^verbatim>\<open>getUserPortfolio\<close>,
  \<^verbatim>\<open>getPortfolioSummary\<close>, \<^verbatim>\<open>getQuarterlyPerformance\<close> and \<^verbatim>\<open>getAvailableQuarters\<close>: each
  behaves the same whatever the cache holds and leaves the cache as it was, as does
  \<^verbatim>\<open>subscribeToPortfolioUpdates\<close>. \<^verbatim>\<open>clearCache\<close> alone changes it: it empties it. The
  expiry constant is five minutes in milliseconds.
\<close>

theorem cache_is_dead_state:
  "getUserPortfolio r (s\<lparr>cache := c\<rparr>) u q y =
     (fst (getUserPortfolio r s u q y), (snd (getUserPortfolio r s u q y))\<lparr>cache := c\<rparr>)
   \<and> getPortfolioSummary lc r (s\<lparr>cache := c\<rparr>) u =
     (fst (getPortfolioSummary lc r s u), (snd (getPortfolioSummary lc r s u))\<lparr>cache := c\<rparr>)
   \<and> getQuarterlyPerformance lc r (s\<lparr>cache := c\<rparr>) u =
     (fst (getQuarterlyPerformance lc r s u), (snd (getQuarterlyPerformance lc r s u))\<lparr>cache := c\<rparr>)
   \<and> getAvailableQuarters r (s\<lparr>cache := c\<rparr>) u =
     (fst (getAvailableQuarters r s u), (snd (getAvailableQuarters r s u))\<lparr>cache := c\<rparr>)
   \<and> cache (snd (getUserPortfolio r s u q y)) = cache s
   \<and> cache (snd (getPortfolioSummary lc r s u)) = cache s
   \<and> cache (snd (getQuarterlyPerformance lc r s u)) = cache s
   \<and> cache (snd (getAvailableQuarters r s u)) = cache s
   \<and> cache (snd (subscribeToPortfolioUpdates s u)) = cache s
   \<and> snd (clearCache s) = s\<lparr>cache := []\<rparr>
   \<and> CACHE_DURATION = 300000"
  by (simp add: getUserPortfolio_cache getPortfolioSummary_cache getQuarterlyPerformance_cache
      getAvailableQuarters_cache getUserPortfolio_keeps_cache getPortfolioSummary_keeps_cache
      getQuarterlyPerformance_keeps_cache getAvailableQuarters_keeps_cache
      subscribeToPortfolioUpdates_def clearCache_def CACHE_DURATION_def)

section \<open>Failures of the fetch\<close>

text \<open>
  C5. When the fetch of the holdings fails, \<^verbatim>\<open>getUserPortfolio\<close> and \<^verbatim>\<open>getPortfolioSummary\<close>
  fail with the same error. When the fetch inside \<^verbatim>\<open>getQuarterlyPerformance\<close> or inside
  \<^verbatim>\<open>getAvailableQuarters\<close> fails, the function returns the empty list; neither of the two
  ever fails.
\<close>

theorem fetch_failures:
  "(await_query r (portfolio_query u None None) = Inl e \<longrightarrow>
      fst (getUserPortfolio r s u None None) = Inl e
      \<and> fst (getPortfolioSummary lc r s u) = Inl e)
   \<and> (await_query r (quarterly_query u) = Inl e \<longrightarrow>
        fst (getQuarterlyPerformance lc r s u) = Inr [])
   \<and> (await_query r (quarters_query u) = Inl e \<longrightarrow>
        fst (getAvailableQuarters r s u) = Inr [])
   \<and> (\<exists>qs. fst (getQuarterlyPerformance lc r s u) = Inr qs)
   \<and> (\<exists>qs. fst (getAvailableQuarters r s u) = Inr qs)"
  by (simp add: getPortfolioSummary_def getUserPortfolio_def getQuarterlyPerformance_def
      getAvailableQuarters_def Let_def split: sum.split)

theorem fetch_failures_witness:
  "await_query (failing_remote (Error ''down'')) (portfolio_query ''u'' None None)
     = Inl (Error ''down'')
   \<and> fst (getPortfolioSummary compare_code_units (failing_remote (Error ''down'')) initial_state ''u'')
     = Inl (Error ''down'')
   \<and> await_query (failing_remote (Error ''down'')) (quarterly_query ''u'') = Inl (Error ''down'')
   \<and> fst (getQuarterlyPerformance compare_code_units (failing_remote (Error ''down'')) initial_state ''u'') = Inr []
   \<and> await_query (failing_remote (Error ''down'')) (quarters_query ''u'') = Inl (Error ''down'')
   \<and> fst (getAvailableQuarters (failing_remote (Error ''down'')) initial_state ''u'') = Inr []"
proof -
  have f: "await_query (failing_remote (Error ''down'')) q = Inl (Error ''down'')" for q
    by (simp add: await_query_def failing_remote_def)
  from fetch_failures [of "failing_remote (Error ''down'')" "''u''" "Error ''down''" initial_state]
  show ?thesis by (simp add: f)
qed

section \<open>Sorting and sets of strings\<close>

lemma set_insert_by: "set (insert_by cmp x ys) = insert x (set ys)"
  by (induction ys) auto

lemma set_sort_by: "set (sort_by cmp xs) = set xs"
  by (induction xs) (simp_all add: sort_by_def set_insert_by)

lemma distinct_insert_by: "distinct (insert_by cmp x ys) \<longleftrightarrow> x \<notin> set ys \<and> distinct ys"
  by (induction ys) (auto simp: set_insert_by)

lemma distinct_sort_by: "distinct (sort_by cmp xs) \<longleftrightarrow> distinct xs"
  by (induction xs) (simp_all add: sort_by_def distinct_insert_by set_sort_by [unfolded sort_by_def])

lemma map_insert_by:
  "map f (insert_by (\<lambda>a b. cmp (f a) (f b)) x ys) = insert_by cmp (f x) (map f ys)"
  by (induction ys) auto

lemma map_sort_by:
  "map f (sort_by (\<lambda>a b. cmp (f a) (f b)) xs) = sort_by cmp (map f xs)"
  by (induction xs) (simp_all add: sort_by_def map_insert_by)

lemma sorted_wrt_insert_by:
  assumes total: "\<And>a b. a \<in> A \<Longrightarrow> b \<in> A \<Longrightarrow> cmp a b \<le> 0 \<or> cmp b a \<le> 0"
    and trans: "\<And>a b c. a \<in> A \<Longrightarrow> b \<in> A \<Longrightarrow> c \<in> A
                  \<Longrightarrow> cmp a b \<le> 0 \<Longrightarrow> cmp b c \<le> 0 \<Longrightarrow> cmp a c \<le> 0"
    and "sorted_wrt (\<lambda>a b. cmp a b \<le> 0) ys" and "x \<in> A" and "set ys \<subseteq> A"
  shows "sorted_wrt (\<lambda>a b. cmp a b \<le> 0) (insert_by cmp x ys)"
  using assms(3,5)
proof (induction ys)
  case Nil
  then show ?case by simp
next
  case (Cons y ys)
  from Cons.prems have y: "y \<in> A" and ys: "set ys \<subseteq> A"
    and sy: "\<forall>z\<in>set ys. cmp y z \<le> 0" and sys: "sorted_wrt (\<lambda>a b. cmp a b \<le> 0) ys"
    by simp_all
  show ?case
  proof (cases "cmp x y \<le> 0")
    case True
    have "cmp x z \<le> 0" if "z \<in> set ys" for z
      using trans [OF assms(4) y _ True] sy ys that by blast
    with True Cons.prems show ?thesis by simp
  next
    case False
    with total [OF assms(4) y] have "cmp y x \<le> 0" by blast
    with False sy Cons.IH [OF sys ys] show ?thesis
      by (simp add: set_insert_by)
  qed
qed

lemma sorted_wrt_sort_by:
  assumes "\<And>a b. a \<in> set xs \<Longrightarrow> b \<in> set xs \<Longrightarrow> cmp a b \<le> 0 \<or> cmp b a \<le> 0"
    and "\<And>a b c. a \<in> set xs \<Longrightarrow> b \<in> set xs \<Longrightarrow> c \<in> set xs
           \<Longrightarrow> cmp a b \<le> 0 \<Longrightarrow> cmp b c \<le> 0 \<Longrightarrow> cmp a c \<le> 0"
  shows "sorted_wrt (\<lambda>a b. cmp a b \<le> 0) (sort_by cmp xs)"
proof -
  have "sorted_wrt (\<lambda>a b. cmp a b \<le> 0) (sort_by cmp ys)" if "set ys \<subseteq> set xs" for ys
    using that
  proof (induction ys)
    case Nil
    then show ?case by (simp add: sort_by_def)
  next
    case (Cons y ys)
    then have ih: "sorted_wrt (\<lambda>a b. cmp a b \<le> 0) (sort_by cmp ys)"
      and y: "y \<in> set xs" and ys: "set (sort_by cmp ys) \<subseteq> set xs"
      by (simp_all add: set_sort_by)
    from sorted_wrt_insert_by [of "set xs" cmp "sort_by cmp ys" y, OF assms ih y ys]
    show ?case by (simp add: sort_by_def)
  qed
  then show ?thesis by simp
qed

lemma set_foldl_set_add: "set (foldl set_add acc xs) = set acc \<union> set xs"
  by (induction xs arbitrary: acc) (auto simp: set_add_def)

lemma distinct_foldl_set_add: "distinct acc \<Longrightarrow> distinct (foldl set_add acc xs)"
  by (induction xs arbitrary: acc) (auto simp: set_add_def)

lemma set_new_Set: "set (new_Set xs) = set xs"
  by (simp add: new_Set_def set_foldl_set_add)

lemma distinct_new_Set: "distinct (new_Set xs)"
  by (simp add: new_Set_def distinct_foldl_set_add)

lemma distinct_singleton:
  assumes "distinct xs" and "set xs = {k}"
  shows "xs = [k]"
proof (cases xs)
  case Nil
  with assms show ?thesis by simp
next
  case (Cons a as)
  with assms have a: "a = k" and "set as \<subseteq> {k}" and "k \<notin> set as" by auto
  then have "as = []" by (cases as) auto
  with Cons a show ?thesis by simp
qed

section \<open>The quarters of a user\<close>

text \<open>
  C7. \<^verbatim>\<open>getAvailableQuarters\<close> lists every composite label of the fetched rows exactly
  once: the list has no duplicate and its elements are the labels of the rows. Rows that
  all share one quarter and one year, such as three rows of quarter Q1 and year 2024, give
  the one label of that quarter and year.
\<close>

theorem getAvailableQuarters_deduplicates:
  assumes "await_query r (quarters_query userId) = Inr (Some rows)"
  shows "\<exists>qs. fst (getAvailableQuarters r s userId) = Inr qs
           \<and> distinct qs \<and> set qs = quarterKey ` set rows
           \<and> (rows \<noteq> [] \<and> list_all (\<lambda>h. quarter h = q \<and> year h = y) rows \<longrightarrow>
                qs = [q @ '' '' @ string_of_int y])"
proof -
  let ?qs = "rev (sort_by compare_code_units (new_Set (map quarterKey rows)))"
  have r: "fst (getAvailableQuarters r s userId) = Inr ?qs"
    using assms by (simp add: getAvailableQuarters_def Let_def)
  have d: "distinct ?qs"
    by (simp add: distinct_sort_by distinct_new_Set)
  have e: "set ?qs = quarterKey ` set rows"
    by (simp add: set_sort_by set_new_Set)
  have "?qs = [q @ '' '' @ string_of_int y]"
    if "rows \<noteq> []" and "list_all (\<lambda>h. quarter h = q \<and> year h = y) rows"
  proof -
    from that have "quarterKey ` set rows = {q @ '' '' @ string_of_int y}"
      by (cases rows) (auto simp: list_all_iff quarterKey_def)
    with d e show ?thesis by (simp add: distinct_singleton)
  qed
  with r d e show ?thesis by blast
qed

theorem getAvailableQuarters_deduplicates_witness:
  "await_query
     (table_remote [row ''u'' 10 90 100 ''Q1'' 2024 1, row ''u'' 5 40 50 ''Q1'' 2024 2,
                    row ''u'' 7 20 30 ''Q1'' 2024 3]) (quarters_query ''u'')
     = Inr (Some [row ''u'' 10 90 100 ''Q1'' 2024 1, row ''u'' 5 40 50 ''Q1'' 2024 2,
                  row ''u'' 7 20 30 ''Q1'' 2024 3])
   \<and> fst (getAvailableQuarters
       (table_remote [row ''u'' 10 90 100 ''Q1'' 2024 1, row ''u'' 5 40 50 ''Q1'' 2024 2,
                      row ''u'' 7 20 30 ''Q1'' 2024 3]) initial_state ''u'')
     = Inr [''Q1 2024'']"
proof -
  let ?rows = "[row ''u'' 10 90 100 ''Q1'' 2024 1, row ''u'' 5 40 50 ''Q1'' 2024 2,
                row ''u'' 7 20 30 ''Q1'' 2024 3]"
  have a: "await_query (table_remote ?rows) (quarters_query ''u'') = Inr (Some ?rows)"
    by (simp add: await_query_def table_remote_def run_query_def quarters_query_def row_def)
  have b: "?rows \<noteq> [] \<and> list_all (\<lambda>h. quarter h = ''Q1'' \<and> year h = 2024) ?rows"
    by (simp add: row_def)
  have c: "string_of_int 2024 = ''2024''"
    by (simp add: string_of_int_def string_of_nat.simps)
  from getAvailableQuarters_deduplicates [OF a, of initial_state "''Q1''" 2024] a b c
  show ?thesis by auto
qed

section \<open>The quarterly performance\<close>

lemma map_of_map_set: "map_of (map_set m k v) = (map_of m)(k \<mapsto> v)"
  by (induction m k v rule: map_set.induct) (auto simp: fun_eq_iff)

lemma keys_map_set:
  "map fst (map_set m k v) = (if k \<in> set (map fst m) then map fst m else map fst m @ [k])"
  by (induction m k v rule: map_set.induct) auto

lemma map_of_addToQuarter:
  "map_of (addToQuarter m h) k =
     (if k = quarterKey h
      then Some (js_plus (fst (case map_of m k of Some e \<Rightarrow> e | None \<Rightarrow> (Num 0, Num 0)))
                   (currentValue h),
                 js_plus (snd (case map_of m k of Some e \<Rightarrow> e | None \<Rightarrow> (Num 0, Num 0)))
                   (costBasis h))
      else map_of m k)"
  by (simp add: addToQuarter_def Let_def map_of_map_set)

lemma keys_addToQuarter:
  "fst ` set (addToQuarter m h) = insert (quarterKey h) (fst ` set m)"
  using keys_map_set [of m "quarterKey h"] 
  by (auto simp: addToQuarter_def Let_def simp flip: set_map)

lemma distinct_addToQuarter:
  "distinct (map fst m) \<Longrightarrow> distinct (map fst (addToQuarter m h))"
  by (simp add: addToQuarter_def Let_def keys_map_set)

lemma keys_foldl_addToQuarter:
  "fst ` set (foldl addToQuarter m hs) = fst ` set m \<union> quarterKey ` set hs"
  by (induction hs arbitrary: m) (simp_all add: keys_addToQuarter)

lemma distinct_foldl_addToQuarter:
  "distinct (map fst m) \<Longrightarrow> distinct (map fst (foldl addToQuarter m hs))"
  by (induction hs arbitrary: m) (simp_all add: distinct_addToQuarter)

text \<open>
  The value that the map holds for a key: the sums in doubles, from left to right, over
  the rows of that key.
\<close>

lemma map_of_foldl_addToQuarter:
  "map_of (foldl addToQuarter m hs) k =
     (if k \<in> quarterKey ` set hs
      then Some (foldl js_plus (fst (case map_of m k of Some e \<Rightarrow> e | None \<Rightarrow> (Num 0, Num 0)))
                   (map currentValue (filter (\<lambda>h. quarterKey h = k) hs)),
                 foldl js_plus (snd (case map_of m k of Some e \<Rightarrow> e | None \<Rightarrow> (Num 0, Num 0)))
                   (map costBasis (filter (\<lambda>h. quarterKey h = k) hs)))
      else map_of m k)"
proof (induction hs arbitrary: m)
  case Nil
  then show ?case by simp
next
  case (Cons h hs)
  have ih: "map_of (foldl addToQuarter m (h # hs)) k =
     (if k \<in> quarterKey ` set hs
      then Some (foldl js_plus
                   (fst (case map_of (addToQuarter m h) k of Some e \<Rightarrow> e | None \<Rightarrow> (Num 0, Num 0)))
                   (map currentValue (filter (\<lambda>h. quarterKey h = k) hs)),
                 foldl js_plus
                   (snd (case map_of (addToQuarter m h) k of Some e \<Rightarrow> e | None \<Rightarrow> (Num 0, Num 0)))
                   (map costBasis (filter (\<lambda>h. quarterKey h = k) hs)))
      else map_of (addToQuarter m h) k)"
    using Cons.IH [of "addToQuarter m h"] by simp
  have empty: "filter (\<lambda>h. quarterKey h = k) hs = []" if "k \<notin> quarterKey ` set hs"
    using that by (auto simp: filter_empty_conv)
  show ?case
  proof (cases "k = quarterKey h")
    case True
    then show ?thesis
      unfolding ih using empty by (auto simp: map_of_addToQuarter)
  next
    case False
    then have "quarterKey h \<noteq> k" by simp
    with False show ?thesis
      unfolding ih by (simp add: map_of_addToQuarter)
  qed
qed

lemma quarterLabel_quarterEntry: "quarterLabel (quarterEntry e) = fst e"
  by (cases e) (simp add: quarterEntry_def)

lemma performance_quarterEntry:
  "performance (quarterEntry (k, v, c)) = gain_loss_percent v c"
  by (simp add: quarterEntry_def gain_loss_percent_def)

lemma quarterEntry_of_group:
  assumes "g \<in> set (map quarterEntry (foldl addToQuarter [] hs))"
  shows "quarterLabel g \<in> quarterKey ` set hs
         \<and> performance g =
             gain_loss_percent
               (double_total_value (filter (\<lambda>h. quarterKey h = quarterLabel g) hs))
               (double_total_cost (filter (\<lambda>h. quarterKey h = quarterLabel g) hs))"
proof -
  let ?m = "foldl addToQuarter [] hs"
  from assms obtain k v c where e: "(k, v, c) \<in> set ?m" and g: "g = quarterEntry (k, v, c)"
    by auto
  have "distinct (map fst ?m)"
    by (rule distinct_foldl_addToQuarter) simp
  with e have m: "map_of ?m k = Some (v, c)"
    by simp
  have k: "k \<in> quarterKey ` set hs"
    using e keys_foldl_addToQuarter [of "[]" hs] by force
  with m have "v = double_total_value (filter (\<lambda>h. quarterKey h = k) hs)"
    and "c = double_total_cost (filter (\<lambda>h. quarterKey h = k) hs)"
    by (simp_all add: map_of_foldl_addToQuarter double_total_value_def double_total_cost_def
        double_sum_def currentValue_def [abs_def] costBasis_def [abs_def])
  with g k show ?thesis
    by (simp add: quarterLabel_quarterEntry performance_quarterEntry)
qed

text \<open>Where no step rounds, the percent is that of the exact sums.\<close>

lemma gain_loss_percent_exact:
  assumes "no_rounding hs" and "spec_total_cost hs > 0"
  shows "gain_loss_percent (double_total_value hs) (double_total_cost hs) =
           js_times (round_double ((spec_total_value hs - spec_total_cost hs)
                                     / spec_total_cost hs)) (Num 100)"
proof -
  from assms(1) have "double_total_value hs = Num (spec_total_value hs)
         \<and> double_total_cost hs = Num (spec_total_cost hs)
         \<and> double_total_shares hs = Num (of_int (spec_total_shares hs))"
    by (intro double_totals_exact) (simp_all add: no_rounding_def)
  moreover from assms(1) have "round_double (spec_total_value hs - spec_total_cost hs)
                    = Num (spec_total_value hs - spec_total_cost hs)"
    by (simp add: no_rounding_def is_double_def)
  ultimately show ?thesis
    using assms(2)
    by (simp add: gain_loss_percent_def js_minus_Num js_greater_Num js_divide_Num)
qed

lemma compare_code_units_le: "compare_code_units a b \<le> 0 \<longleftrightarrow> a \<le> b"
  by (auto simp: compare_code_units_def)

lemma round_double_numeral:
  "numeral w < (2 ^ 53 :: int) \<Longrightarrow> round_double (numeral w) = Num (numeral w)"
  using is_double_numeral [of w] by (simp add: is_double_def)

lemma round_double_1_9:
  "round_double (1 / 9) = Num (2001599834386887 / 18014398509481984)"
  by (subst round_double_pos [where e = "- 4"])
     (simp_all add: round_half_even_def Let_def floor_quotient_numeral)

lemma round_double_quarter: "round_double (1 / 4) = Num (1 / 4)"
  by (subst round_double_pos [where e = "- 2"])
     (simp_all add: round_half_even_def Let_def floor_quotient_numeral)

lemma percent_1_9:
  "round_double (50039995859672175 / 4503599627370496)
     = Num (3127499741229511 / 281474976710656)"
  by (subst round_double_pos [where e = 3])
     (simp_all add: round_half_even_def Let_def floor_quotient_numeral)

text \<open>
  The two groups of holdings like those of the worked example, under the keys \<open>k\<close> and
  \<open>k'\<close>.
\<close>

lemma example_entries:
  "quarterEntry (k, js_plus (Num 0) (currentValue (row u 10 90 100 q y t)),
                    js_plus (Num 0) (costBasis (row u 10 90 100 q y t)))
     = \<lparr>quarterLabel = k, performance = Num (3127499741229511 / 281474976710656)\<rparr>"
  "quarterEntry (k', js_plus (Num 0) (currentValue (row u 5 40 50 q y t)),
                     js_plus (Num 0) (costBasis (row u 5 40 50 q y t)))
     = \<lparr>quarterLabel = k', performance = Num 25\<rparr>"
  by (simp_all add: quarterEntry_def currentValue_def costBasis_def row_def number_of_def
      js_times_Num js_minus_Num js_divide_Num js_greater_Num round_double_numeral
      round_double_1_9 round_double_quarter percent_1_9)

lemma await_quarterly_example:
  "await_query (table_remote example_holdings) (quarterly_query ''u'')
     = Inr (Some example_holdings)"
  by (simp add: await_query_def table_remote_def run_query_def quarterly_query_def
      example_holdings_def row_def)

lemma quarterKey_row: "quarterKey (row u n p c q 2024 t) = q @ '' 2024''"
  by (simp add: quarterKey_def row_def string_of_int_2024)

lemma quarterly_example:
  "fst (getQuarterlyPerformance compare_code_units (table_remote example_holdings)
          initial_state ''u'')
     = Inr [\<lparr>quarterLabel = ''Q2 2024'', performance = Num 25\<rparr>,
            \<lparr>quarterLabel = ''Q1 2024'',
             performance = Num (3127499741229511 / 281474976710656)\<rparr>]"
proof -
  have m: "foldl addToQuarter [] example_holdings =
             [(''Q1 2024'', js_plus (Num 0) (currentValue (row ''u'' 10 90 100 ''Q1'' 2024 2)),
                            js_plus (Num 0) (costBasis (row ''u'' 10 90 100 ''Q1'' 2024 2))),
              (''Q2 2024'', js_plus (Num 0) (currentValue (row ''u'' 5 40 50 ''Q2'' 2024 1)),
                            js_plus (Num 0) (costBasis (row ''u'' 5 40 50 ''Q2'' 2024 1)))]"
    by (simp add: example_holdings_def addToQuarter_def quarterKey_row)
  show ?thesis
    by (simp add: getQuarterlyPerformance_def await_quarterly_example m example_entries
        sort_by_def compare_code_units_def)
qed

text \<open>
  C3. \<^verbatim>\<open>getQuarterlyPerformance\<close> returns one group for every composite key (quarter
  label, a space, the year) of the fetched rows and no other. The performance of a group is
  the gain/loss percent of the rows with that key, in doubles: the sum of their values
  minus the sum of their costs, divided by that cost, times 100, every step rounded, when
  the cost is greater than 0, and 0 otherwise; where no step of the sums rounds it is the
  exact quotient rounded, times 100, rounded, and rows that satisfy the constraints of the
  table have a positive cost. The groups are in descending order of their keys in the
  collation \<^verbatim>\<open>localeCompare\<close> of the runtime, provided that it is total and transitive on
  the keys; this is the descending lexicographic order where the collation agrees with
  the order of the code units on the keys. No rows give no group.
\<close>

theorem getQuarterlyPerformance_groups:
  assumes "await_query r (quarterly_query userId) = Inr d"
    and "hs = (case d of Some rows \<Rightarrow> rows | None \<Rightarrow> [])"
  shows "\<exists>qp. fst (getQuarterlyPerformance localeCompare r s userId) = Inr qp
           \<and> distinct (map quarterLabel qp)
           \<and> set (map quarterLabel qp) = quarterKey ` set hs
           \<and> (\<forall>g\<in>set qp.
                 performance g =
                   gain_loss_percent (double_total_value (quarterRows (quarterLabel g) hs))
                     (double_total_cost (quarterRows (quarterLabel g) hs))
                 \<and> (no_rounding (quarterRows (quarterLabel g) hs)
                      \<and> spec_total_cost (quarterRows (quarterLabel g) hs) > 0 \<longrightarrow>
                      performance g =
                        js_times
                          (round_double
                             ((spec_total_value (quarterRows (quarterLabel g) hs)
                                 - spec_total_cost (quarterRows (quarterLabel g) hs))
                              / spec_total_cost (quarterRows (quarterLabel g) hs)))
                          (Num 100))
                 \<and> ((\<forall>h\<in>set hs. holding_ok h) \<longrightarrow>
                      spec_total_cost (quarterRows (quarterLabel g) hs) > 0))
           \<and> ((\<forall>a\<in>quarterKey ` set hs. \<forall>b\<in>quarterKey ` set hs.
                   localeCompare a b \<le> 0 \<or> localeCompare b a \<le> 0)
                \<and> (\<forall>a\<in>quarterKey ` set hs. \<forall>b\<in>quarterKey ` set hs. \<forall>c\<in>quarterKey ` set hs.
                      localeCompare a b \<le> 0 \<and> localeCompare b c \<le> 0
                      \<longrightarrow> localeCompare a c \<le> 0)
                \<longrightarrow> sorted_wrt (\<lambda>a b. localeCompare (quarterLabel b) (quarterLabel a) \<le> 0) qp)
           \<and> ((\<forall>a\<in>quarterKey ` set hs. \<forall>b\<in>quarterKey ` set hs.
                   localeCompare a b \<le> 0 \<longleftrightarrow> a \<le> b)
                \<longrightarrow> sorted_wrt (\<lambda>a b. quarterLabel a \<ge> quarterLabel b) qp)
           \<and> (hs = [] \<longrightarrow> qp = [])"
proof -
  let ?K = "quarterKey ` set hs"
  let ?m = "foldl addToQuarter [] hs"
  let ?cmp = "\<lambda>a b. localeCompare (quarterLabel b) (quarterLabel a)"
  let ?qp = "sort_by ?cmp (map quarterEntry ?m)"
  have res: "fst (getQuarterlyPerformance localeCompare r s userId) = Inr ?qp"
    using assms by (simp add: getQuarterlyPerformance_def Let_def)
  have labels: "map quarterLabel (map quarterEntry ?m) = map fst ?m"
    by (simp add: quarterLabel_quarterEntry)
  have dm: "distinct (map fst ?m)"
    by (rule distinct_foldl_addToQuarter) simp
  have d: "distinct (map quarterLabel ?qp)"
  proof -
    have "map quarterLabel ?qp
            = sort_by (\<lambda>a b. localeCompare b a) (map quarterLabel (map quarterEntry ?m))"
      by (rule map_sort_by)
    with dm show ?thesis
      by (simp only: labels distinct_sort_by)
  qed
  have k: "set (map quarterLabel ?qp) = ?K"
    using keys_foldl_addToQuarter [of "[]" hs]
    by (simp add: set_sort_by image_image quarterLabel_quarterEntry)
  have inK: "quarterLabel g \<in> ?K" if "g \<in> set (map quarterEntry ?m)" for g
    using quarterEntry_of_group [OF that] by blast
  have p: "performance g =
                   gain_loss_percent (double_total_value (quarterRows (quarterLabel g) hs))
                     (double_total_cost (quarterRows (quarterLabel g) hs))
                 \<and> (no_rounding (quarterRows (quarterLabel g) hs)
                      \<and> spec_total_cost (quarterRows (quarterLabel g) hs) > 0 \<longrightarrow>
                      performance g =
                        js_times
                          (round_double
                             ((spec_total_value (quarterRows (quarterLabel g) hs)
                                 - spec_total_cost (quarterRows (quarterLabel g) hs))
                              / spec_total_cost (quarterRows (quarterLabel g) hs)))
                          (Num 100))
                 \<and> ((\<forall>h\<in>set hs. holding_ok h) \<longrightarrow>
                      spec_total_cost (quarterRows (quarterLabel g) hs) > 0)"
    if "g \<in> set ?qp" for g
  proof -
    from that have g: "g \<in> set (map quarterEntry ?m)"
      by (simp only: set_sort_by)
    from quarterEntry_of_group [OF g]
    have in_keys: "quarterLabel g \<in> ?K"
      and perf: "performance g =
                   gain_loss_percent (double_total_value (quarterRows (quarterLabel g) hs))
                     (double_total_cost (quarterRows (quarterLabel g) hs))"
      by (simp_all add: quarterRows_def)
    have pos: "spec_total_cost (quarterRows (quarterLabel g) hs) > 0"
      if ok: "\<forall>h\<in>set hs. holding_ok h"
    proof (rule spec_total_cost_pos)
      show "\<forall>h\<in>set (quarterRows (quarterLabel g) hs). holding_ok h"
        using ok by (simp add: quarterRows_def)
      show "quarterRows (quarterLabel g) hs \<noteq> []"
        using in_keys by (auto simp: filter_empty_conv quarterRows_def)
    qed
    have ex: "performance g =
                        js_times
                          (round_double
                             ((spec_total_value (quarterRows (quarterLabel g) hs)
                                 - spec_total_cost (quarterRows (quarterLabel g) hs))
                              / spec_total_cost (quarterRows (quarterLabel g) hs)))
                          (Num 100)"
      if "no_rounding (quarterRows (quarterLabel g) hs)"
        and "spec_total_cost (quarterRows (quarterLabel g) hs) > 0"
      unfolding perf by (rule gain_loss_percent_exact [OF that])
    from perf pos ex show ?thesis by blast
  qed
  have so: "sorted_wrt (\<lambda>a b. ?cmp a b \<le> 0) ?qp"
    if total: "\<forall>a\<in>?K. \<forall>b\<in>?K. localeCompare a b \<le> 0 \<or> localeCompare b a \<le> 0"
      and trans: "\<forall>a\<in>?K. \<forall>b\<in>?K. \<forall>c\<in>?K.
                      localeCompare a b \<le> 0 \<and> localeCompare b c \<le> 0
                      \<longrightarrow> localeCompare a c \<le> 0"
  proof (rule sorted_wrt_sort_by)
    fix a b
    assume "a \<in> set (map quarterEntry ?m)" and "b \<in> set (map quarterEntry ?m)"
    then have "quarterLabel a \<in> ?K" and "quarterLabel b \<in> ?K"
      by (simp_all only: inK)
    with total show "?cmp a b \<le> 0 \<or> ?cmp b a \<le> 0"
      by blast
  next
    fix a b c
    assume "a \<in> set (map quarterEntry ?m)" and "b \<in> set (map quarterEntry ?m)"
      and "c \<in> set (map quarterEntry ?m)"
    then have "quarterLabel a \<in> ?K" and "quarterLabel b \<in> ?K" and "quarterLabel c \<in> ?K"
      by (simp_all only: inK)
    moreover assume "?cmp a b \<le> 0" and "?cmp b c \<le> 0"
    ultimately show "?cmp a c \<le> 0"
      using trans by blast
  qed
  have lex: "sorted_wrt (\<lambda>a b. quarterLabel a \<ge> quarterLabel b) ?qp"
    if agree: "\<forall>a\<in>?K. \<forall>b\<in>?K. localeCompare a b \<le> 0 \<longleftrightarrow> a \<le> b"
  proof -
    from agree have "\<forall>a\<in>?K. \<forall>b\<in>?K. localeCompare a b \<le> 0 \<or> localeCompare b a \<le> 0"
      by (meson linear)
    moreover from agree have "\<forall>a\<in>?K. \<forall>b\<in>?K. \<forall>c\<in>?K.
                      localeCompare a b \<le> 0 \<and> localeCompare b c \<le> 0
                      \<longrightarrow> localeCompare a c \<le> 0"
      by (meson order_trans)
    ultimately have s: "sorted_wrt (\<lambda>a b. ?cmp a b \<le> 0) ?qp"
      by (rule so)
    show ?thesis
    proof (rule sorted_wrt_mono_rel [OF _ s])
      fix a b
      assume "a \<in> set ?qp" and "b \<in> set ?qp"
      then have "quarterLabel a \<in> ?K" and "quarterLabel b \<in> ?K"
        using k by auto
      moreover assume "?cmp a b \<le> 0"
      ultimately show "quarterLabel a \<ge> quarterLabel b"
        using agree by blast
    qed
  qed
  have e: "hs = [] \<longrightarrow> ?qp = []"
    by (simp add: sort_by_def)
  from res d k p so lex e show ?thesis
    by blast
qed

theorem getQuarterlyPerformance_groups_witness:
  "await_query (table_remote example_holdings) (quarterly_query ''u'')
     = Inr (Some example_holdings)
   \<and> fst (getQuarterlyPerformance compare_code_units (table_remote example_holdings)
            initial_state ''u'')
     = Inr [\<lparr>quarterLabel = ''Q2 2024'', performance = Num 25\<rparr>,
            \<lparr>quarterLabel = ''Q1 2024'',
             performance = Num (3127499741229511 / 281474976710656)\<rparr>]
   \<and> set (map quarterLabel [\<lparr>quarterLabel = ''Q2 2024'', performance = Num 25\<rparr>,
            \<lparr>quarterLabel = ''Q1 2024'',
             performance = Num (3127499741229511 / 281474976710656)\<rparr>])
     = quarterKey ` set example_holdings
   \<and> sorted_wrt (\<lambda>a b. compare_code_units (quarterLabel b) (quarterLabel a) \<le> 0)
        [\<lparr>quarterLabel = ''Q2 2024'', performance = Num 25\<rparr>,
         \<lparr>quarterLabel = ''Q1 2024'',
          performance = Num (3127499741229511 / 281474976710656)\<rparr>]
   \<and> sorted_wrt (\<lambda>a b. quarterLabel a \<ge> quarterLabel b)
        [\<lparr>quarterLabel = ''Q2 2024'', performance = Num 25\<rparr>,
         \<lparr>quarterLabel = ''Q1 2024'',
          performance = Num (3127499741229511 / 281474976710656)\<rparr>]
   \<and> gain_loss_percent (double_total_value (quarterRows ''Q1 2024'' example_holdings))
        (double_total_cost (quarterRows ''Q1 2024'' example_holdings))
     = Num (3127499741229511 / 281474976710656)
   \<and> gain_loss_percent (double_total_value (quarterRows ''Q2 2024'' example_holdings))
        (double_total_cost (quarterRows ''Q2 2024'' example_holdings))
     = Num 25"
proof -
  let ?qp = "[\<lparr>quarterLabel = ''Q2 2024'', performance = Num 25\<rparr>,
            \<lparr>quarterLabel = ''Q1 2024'',
             performance = Num (3127499741229511 / 281474976710656)\<rparr>]"
  have hs: "example_holdings = (case Some example_holdings of Some rows \<Rightarrow> rows | None \<Rightarrow> [])"
    by simp
  have agree: "\<forall>a\<in>quarterKey ` set example_holdings. \<forall>b\<in>quarterKey ` set example_holdings.
                 compare_code_units a b \<le> 0 \<longleftrightarrow> a \<le> b"
    by (simp only: compare_code_units_le) simp
  have total: "\<forall>a\<in>quarterKey ` set example_holdings. \<forall>b\<in>quarterKey ` set example_holdings.
                 compare_code_units a b \<le> 0 \<or> compare_code_units b a \<le> 0"
    by (simp only: compare_code_units_le) (simp add: linear)
  have trans: "\<forall>a\<in>quarterKey ` set example_holdings. \<forall>b\<in>quarterKey ` set example_holdings.
                 \<forall>c\<in>quarterKey ` set example_holdings.
                   compare_code_units a b \<le> 0 \<and> compare_code_units b c \<le> 0
                   \<longrightarrow> compare_code_units a c \<le> 0"
    by (simp only: compare_code_units_le) auto
  let ?K = "quarterKey ` set example_holdings"
  let ?r = "table_remote example_holdings"
  from getQuarterlyPerformance_groups [OF await_quarterly_example hs,
      where localeCompare = compare_code_units and s = initial_state]
  obtain qp where
    A: "fst (getQuarterlyPerformance compare_code_units ?r initial_state ''u'') = Inr qp
           \<and> distinct (map quarterLabel qp)
           \<and> set (map quarterLabel qp) = ?K
           \<and> (\<forall>g\<in>set qp.
                 performance g =
                   gain_loss_percent (double_total_value (quarterRows (quarterLabel g) example_holdings))
                     (double_total_cost (quarterRows (quarterLabel g) example_holdings))
                 \<and> (no_rounding (quarterRows (quarterLabel g) example_holdings)
                      \<and> spec_total_cost (quarterRows (quarterLabel g) example_holdings) > 0 \<longrightarrow>
                      performance g =
                        js_times
                          (round_double
                             ((spec_total_value (quarterRows (quarterLabel g) example_holdings)
                                 - spec_total_cost (quarterRows (quarterLabel g) example_holdings))
                              / spec_total_cost (quarterRows (quarterLabel g) example_holdings)))
                          (Num 100))
                 \<and> ((\<forall>h\<in>set example_holdings. holding_ok h) \<longrightarrow>
                      spec_total_cost (quarterRows (quarterLabel g) example_holdings) > 0))
           \<and> ((\<forall>a\<in>?K. \<forall>b\<in>?K. compare_code_units a b \<le> 0 \<or> compare_code_units b a \<le> 0)
                \<and> (\<forall>a\<in>?K. \<forall>b\<in>?K. \<forall>c\<in>?K.
                      compare_code_units a b \<le> 0 \<and> compare_code_units b c \<le> 0
                      \<longrightarrow> compare_code_units a c \<le> 0)
                \<longrightarrow> sorted_wrt (\<lambda>a b. compare_code_units (quarterLabel b) (quarterLabel a) \<le> 0) qp)
           \<and> ((\<forall>a\<in>?K. \<forall>b\<in>?K. compare_code_units a b \<le> 0 \<longleftrightarrow> a \<le> b)
                \<longrightarrow> sorted_wrt (\<lambda>a b. quarterLabel a \<ge> quarterLabel b) qp)
           \<and> (example_holdings = [] \<longrightarrow> qp = [])"
    by (rule exE)
  from A have r: "fst (getQuarterlyPerformance compare_code_units ?r initial_state ''u'') = Inr qp"
    by (elim conjE)
  from A have k: "set (map quarterLabel qp) = ?K"
    by (elim conjE)
  from A have p: "\<forall>g\<in>set qp.
              performance g =
                gain_loss_percent (double_total_value (quarterRows (quarterLabel g) example_holdings))
                  (double_total_cost (quarterRows (quarterLabel g) example_holdings))"
    by (elim conjE) blast
  from A have "(\<forall>a\<in>?K. \<forall>b\<in>?K. compare_code_units a b \<le> 0 \<or> compare_code_units b a \<le> 0)
                \<and> (\<forall>a\<in>?K. \<forall>b\<in>?K. \<forall>c\<in>?K.
                      compare_code_units a b \<le> 0 \<and> compare_code_units b c \<le> 0
                      \<longrightarrow> compare_code_units a c \<le> 0)
                \<longrightarrow> sorted_wrt (\<lambda>a b. compare_code_units (quarterLabel b) (quarterLabel a) \<le> 0) qp"
    by (elim conjE)
  with total trans
  have so: "sorted_wrt (\<lambda>a b. compare_code_units (quarterLabel b) (quarterLabel a) \<le> 0) qp"
    by (elim impE) (rule conjI)
  from A have "(\<forall>a\<in>?K. \<forall>b\<in>?K. compare_code_units a b \<le> 0 \<longleftrightarrow> a \<le> b)
                \<longrightarrow> sorted_wrt (\<lambda>a b. quarterLabel a \<ge> quarterLabel b) qp"
    by (elim conjE)
  with agree have lex: "sorted_wrt (\<lambda>a b. quarterLabel a \<ge> quarterLabel b) qp"
    by (elim impE)
  from r have qp: "qp = ?qp"
    by (simp add: quarterly_example)
  from p have "gain_loss_percent (double_total_value (quarterRows ''Q1 2024'' example_holdings))
        (double_total_cost (quarterRows ''Q1 2024'' example_holdings))
     = Num (3127499741229511 / 281474976710656)"
    and "gain_loss_percent (double_total_value (quarterRows ''Q2 2024'' example_holdings))
        (double_total_cost (quarterRows ''Q2 2024'' example_holdings))
     = Num 25"
    unfolding qp by simp_all
  with k so lex await_quarterly_example quarterly_example show ?thesis
    unfolding qp by blast
qed

text \<open>
  C3, as the specification words it, with the descending lexicographic order of the keys,
  does not hold. The column \<^verbatim>\<open>quarter\<close> is free text, and a collation that compares letters
  without regard to their case puts the key \<^verbatim>\<open>q1 2024\<close> before the key \<^verbatim>\<open>Q2 2024\<close>, which is
  the smaller of the two in the order of the code units: the groups are returned with
  \<^verbatim>\<open>Q2 2024\<close> first, in ascending lexicographic order.
\<close>

theorem getQuarterlyPerformance_collation_counterexample:
  "await_query (table_remote mixed_case_holdings) (quarterly_query ''u'')
     = Inr (Some mixed_case_holdings)
   \<and> list_all holding_ok mixed_case_holdings
   \<and> fst (getQuarterlyPerformance collate_caseless (table_remote mixed_case_holdings)
            initial_state ''u'')
       = Inr [\<lparr>quarterLabel = ''Q2 2024'', performance = Num 25\<rparr>,
              \<lparr>quarterLabel = ''q1 2024'',
               performance = Num (3127499741229511 / 281474976710656)\<rparr>]
   \<and> ''Q2 2024'' < ''q1 2024''
   \<and> collate_caseless ''q1 2024'' ''Q2 2024'' = - 1"
proof -
  have a: "await_query (table_remote mixed_case_holdings) (quarterly_query ''u'')
     = Inr (Some mixed_case_holdings)"
    by (simp add: await_query_def table_remote_def run_query_def quarterly_query_def
        mixed_case_holdings_def row_def)
  have ok: "list_all holding_ok mixed_case_holdings"
    by (simp add: mixed_case_holdings_def row_def holding_ok_def)
  have u: "upper CHR ''q'' = CHR ''Q''" "upper CHR ''Q'' = CHR ''Q''"
    "upper CHR ''1'' = CHR ''1''" "upper CHR ''2'' = CHR ''2''"
    by (simp_all add: upper_def)
  have c: "collate_caseless ''q1 2024'' ''Q2 2024'' = - 1"
    "collate_caseless ''Q2 2024'' ''q1 2024'' = 1"
    by (simp_all add: collate_caseless_def u)
  have m: "foldl addToQuarter [] mixed_case_holdings =
             [(''q1 2024'', js_plus (Num 0) (currentValue (row ''u'' 10 90 100 ''q1'' 2024 2)),
                            js_plus (Num 0) (costBasis (row ''u'' 10 90 100 ''q1'' 2024 2))),
              (''Q2 2024'', js_plus (Num 0) (currentValue (row ''u'' 5 40 50 ''Q2'' 2024 1)),
                            js_plus (Num 0) (costBasis (row ''u'' 5 40 50 ''Q2'' 2024 1)))]"
    by (simp add: mixed_case_holdings_def addToQuarter_def quarterKey_row)
  have r: "fst (getQuarterlyPerformance collate_caseless (table_remote mixed_case_holdings)
            initial_state ''u'')
       = Inr [\<lparr>quarterLabel = ''Q2 2024'', performance = Num 25\<rparr>,
              \<lparr>quarterLabel = ''q1 2024'',
               performance = Num (3127499741229511 / 281474976710656)\<rparr>]"
    by (simp add: getQuarterlyPerformance_def a m example_entries sort_by_def c)
  have l: "''Q2 2024'' < ''q1 2024''"
    by simp
  from a ok r l c(1) show ?thesis
    by simp
qed

section \<open>The fetch of the holdings\<close>

lemma filters_portfolio_query:
  "filters (portfolio_query u q y) =
     [Eq_user_id u]
     @ (case q of Some q' \<Rightarrow> if q' \<noteq> [] then [Eq_quarter q'] else [] | None \<Rightarrow> [])
     @ (case y of Some y' \<Rightarrow> if y' \<noteq> 0 then [Eq_year y'] else [] | None \<Rightarrow> [])"
  by (simp add: portfolio_query_def Let_def split: option.split)

lemma order_portfolio_query: "order_created_at_desc (portfolio_query u q y)"
  by (simp add: portfolio_query_def Let_def split: option.split)

lemma getUserPortfolio_table:
  "getUserPortfolio (table_remote tbl) s u q y = (Inr (run_query tbl (portfolio_query u q y)), s)"
  by (simp add: getUserPortfolio_def await_query_def table_remote_def)

lemma set_run_query:
  "set (run_query tbl qu) = {h \<in> set tbl. \<forall>f\<in>set (filters qu). matches f h}"
  by (auto simp: run_query_def Let_def list_all_iff)

lemma sorted_run_query:
  "order_created_at_desc qu \<Longrightarrow>
     sorted_wrt (\<lambda>a b. created_at a \<ge> created_at b) (run_query tbl qu)"
proof -
  assume "order_created_at_desc qu"
  then have "run_query tbl qu
      = sort_key (\<lambda>h. - created_at h) (filter (\<lambda>h. list_all (\<lambda>f. matches f h) (filters qu)) tbl)"
    by (simp add: run_query_def)
  moreover have "sorted (map (\<lambda>h. - created_at h)
      (sort_key (\<lambda>h. - created_at h) (filter (\<lambda>h. list_all (\<lambda>f. matches f h) (filters qu)) tbl)))"
    by (rule sorted_sort_key)
  ultimately show ?thesis
    by (simp add: sorted_map)
qed

text \<open>
  C6, as the code has it. Against the table, \<^verbatim>\<open>getUserPortfolio\<close> returns exactly the rows
  of the user that match every filter it was given, a filter being given when the quarter
  is a non-empty string, respectively when the year is a number other than 0, and it returns
  them by descending \<^verbatim>\<open>created_at\<close>, most recent first. When the remote service fails, the
  function fails with its error.
\<close>

theorem getUserPortfolio_filters:
  "(\<exists>hs. getUserPortfolio (table_remote tbl) s userId q y = (Inr hs, s)
       \<and> set hs = {h \<in> set tbl. user_id h = userId
                     \<and> (\<forall>q'. q = Some q' \<and> q' \<noteq> [] \<longrightarrow> quarter h = q')
                     \<and> (\<forall>y'. y = Some y' \<and> y' \<noteq> 0 \<longrightarrow> year h = y')}
       \<and> sorted_wrt (\<lambda>a b. created_at a \<ge> created_at b) hs)
   \<and> (await_query r (portfolio_query userId q y) = Inl e \<longrightarrow>
        fst (getUserPortfolio r s userId q y) = Inl e)"
proof -
  let ?hs = "run_query tbl (portfolio_query userId q y)"
  have a: "getUserPortfolio (table_remote tbl) s userId q y = (Inr ?hs, s)"
    by (rule getUserPortfolio_table)
  have b: "set ?hs = {h \<in> set tbl. user_id h = userId
                     \<and> (\<forall>q'. q = Some q' \<and> q' \<noteq> [] \<longrightarrow> quarter h = q')
                     \<and> (\<forall>y'. y = Some y' \<and> y' \<noteq> 0 \<longrightarrow> year h = y')}"
    by (auto simp: set_run_query filters_portfolio_query split: option.splits if_splits)
  have c: "sorted_wrt (\<lambda>a b. created_at a \<ge> created_at b) ?hs"
    by (rule sorted_run_query) (rule order_portfolio_query)
  have d: "await_query r (portfolio_query userId q y) = Inl e \<longrightarrow>
        fst (getUserPortfolio r s userId q y) = Inl e"
    by (simp add: getUserPortfolio_def)
  from a b c d show ?thesis by blast
qed

theorem getUserPortfolio_filters_witness:
  "getUserPortfolio (table_remote example_holdings) initial_state ''u'' (Some ''Q2'') (Some 2024)
     = (Inr [row ''u'' 5 40 50 ''Q2'' 2024 1], initial_state)
   \<and> await_query (failing_remote (Error ''down'')) (portfolio_query ''u'' (Some ''Q2'') (Some 2024))
       = Inl (Error ''down'')
   \<and> fst (getUserPortfolio (failing_remote (Error ''down'')) initial_state ''u''
            (Some ''Q2'') (Some 2024)) = Inl (Error ''down'')"
proof -
  have f: "await_query (failing_remote (Error ''down'')) qu = Inl (Error ''down'')" for qu
    by (simp add: await_query_def failing_remote_def)
  have v: "getUserPortfolio (table_remote example_holdings) initial_state ''u''
             (Some ''Q2'') (Some 2024)
     = (Inr [row ''u'' 5 40 50 ''Q2'' 2024 1], initial_state)"
    by (simp add: getUserPortfolio_table run_query_def portfolio_query_def example_holdings_def
        row_def)
  from getUserPortfolio_filters [of example_holdings initial_state "''u''" "Some ''Q2''"
      "Some 2024" "failing_remote (Error ''down'')" "Error ''down''"] f v
  show ?thesis by simp
qed

text \<open>
  C6 does not hold of a filter that is passed and is falsy: with the empty string for the
  quarter and 2024 for the year the function returns a row of quarter Q1, and with quarter
  Q1 and year 0 it returns a row of 2024.
\<close>

theorem getUserPortfolio_empty_quarter_counterexample:
  "fst (getUserPortfolio (table_remote example_holdings) initial_state ''u'' (Some '''') (Some 2024))
     = Inr [row ''u'' 10 90 100 ''Q1'' 2024 2, row ''u'' 5 40 50 ''Q2'' 2024 1]
   \<and> quarter (row ''u'' 10 90 100 ''Q1'' 2024 2) \<noteq> ''''
   \<and> fst (getUserPortfolio (table_remote example_holdings) initial_state ''u'' (Some ''Q1'') (Some 0))
     = Inr [row ''u'' 10 90 100 ''Q1'' 2024 2]
   \<and> year (row ''u'' 10 90 100 ''Q1'' 2024 2) \<noteq> 0"
  by (simp add: getUserPortfolio_table run_query_def portfolio_query_def example_holdings_def
      row_def)

section \<open>The two aggregations\<close>

lemma sum_list_insort_key:
  "sum_list (map g (insort_key f x xs)) = g x + sum_list (map g xs)"
  for g :: "'a \<Rightarrow> 'b::comm_monoid_add"
  by (induction xs) (simp_all add: add.left_commute)

lemma sum_list_sort_key:
  "sum_list (map g (sort_key f xs)) = sum_list (map g xs)"
  for g :: "'a \<Rightarrow> 'b::comm_monoid_add"
  by (induction xs) (simp_all add: sum_list_insort_key)

lemma run_query_user:
  "run_query tbl (portfolio_query u None None)
     = sort_key (\<lambda>h. - created_at h) (filter (\<lambda>h. user_id h = u) tbl)"
  by (simp add: run_query_def portfolio_query_def)

lemma spec_totals_run_query:
  "spec_total_value (run_query tbl (portfolio_query u None None))
     = spec_total_value (filter (\<lambda>h. user_id h = u) tbl)"
  "spec_total_cost (run_query tbl (portfolio_query u None None))
     = spec_total_cost (filter (\<lambda>h. user_id h = u) tbl)"
  "spec_total_shares (run_query tbl (portfolio_query u None None))
     = spec_total_shares (filter (\<lambda>h. user_id h = u) tbl)"
  by (simp_all add: run_query_user spec_total_value_def spec_total_cost_def
      spec_total_shares_def sum_list_sort_key)

text \<open>What the function of the database returns where the user has a row: the exact sums.\<close>

lemma get_portfolio_summary_rows:
  assumes "filter (\<lambda>h. user_id h = u) tbl \<noteq> []"
  shows "get_portfolio_summary tbl u
     = Inr \<lparr>total_value = Some (spec_total_value (filter (\<lambda>h. user_id h = u) tbl)),
            total_cost = Some (spec_total_cost (filter (\<lambda>h. user_id h = u) tbl)),
            total_gain_loss = Some (spec_total_value (filter (\<lambda>h. user_id h = u) tbl)
                                      - spec_total_cost (filter (\<lambda>h. user_id h = u) tbl)),
            total_gain_loss_percent =
              Some (if spec_total_cost (filter (\<lambda>h. user_id h = u) tbl) > 0
                    then (spec_total_value (filter (\<lambda>h. user_id h = u) tbl)
                            - spec_total_cost (filter (\<lambda>h. user_id h = u) tbl))
                         / spec_total_cost (filter (\<lambda>h. user_id h = u) tbl) * 100
                    else 0),
            total_shares = Some (spec_total_shares (filter (\<lambda>h. user_id h = u) tbl))\<rparr>"
  using assms
  by (simp add: get_portfolio_summary_def sql_SUM_def sql_greater_def sql_minus_def
      sql_divide_def sql_times_def Let_def spec_total_value_def spec_total_cost_def
      spec_total_shares_def)

text \<open>
  C2. For a user without a row the function of the database returns \<^verbatim>\<open>NULL\<close> for total
  value, total cost, gain/loss and total shares, and 0 for the percent, where the client
  returns 0 for all of them: the two do not give identical results on the empty list.
\<close>

theorem get_portfolio_summary_no_rows:
  "get_portfolio_summary [] ''u''
     = Inr \<lparr>total_value = None, total_cost = None, total_gain_loss = None,
            total_gain_loss_percent = Some 0, total_shares = None\<rparr>
   \<and> fst (getPortfolioSummary compare_code_units (table_remote []) initial_state ''u'')
     = Inr \<lparr>totalValue = Num 0, totalGainLoss = Num 0, totalGainLossPercent = Num 0,
            totalShares = Num 0,
            quarterlyPerformance = []\<rparr>"
  by (simp add: get_portfolio_summary_def sql_SUM_def sql_greater_def sql_minus_def
      getPortfolioSummary_def getUserPortfolio_table run_query_def portfolio_query_def
      getQuarterlyPerformance_def await_query_def table_remote_def quarterly_query_def
      sort_by_def js_minus_Num js_greater_Num round_double_def)

section \<open>Labels and their parts\<close>











section \<open>The summary on the dashboard\<close>


















end
